theory Spec2Isabelle
  imports Main
begin

section \<open>Data model (models/models.py)\<close>

text \<open>
  The enums of \<^verbatim>\<open>models/models.py\<close>. Constructors are unique per theory, so the
  members of \<^verbatim>\<open>BankState\<close>, \<^verbatim>\<open>ConsentStatus\<close> and \<^verbatim>\<open>EligibilityStatus\<close>
  carry a prefix; the members of \<^verbatim>\<open>DonorState\<close> keep their names.
\<close>

datatype DonorState =
    VISITOR
  | BANK_SELECTED
  | LEAD_CREATED
  | ACCOUNT_CREATED
  | COUNSELING_REQUESTED
  | CONSENT_PENDING
  | CONSENT_VERIFIED
  | TESTS_PENDING
  | ELIGIBILITY_DECISION
  | DONOR_ONBOARDED

datatype BankState =
    BANK_UNREGISTERED
  | BANK_ACCOUNT_CREATED
  | BANK_VERIFICATION_PENDING
  | BANK_VERIFIED
  | BANK_SUBSCRIPTION_PENDING
  | BANK_SUBSCRIBED_ONBOARDED
  | BANK_OPERATIONAL

datatype ConsentStatus = CS_PENDING | CS_SIGNED | CS_VERIFIED | CS_REJECTED

datatype EligibilityStatus = ES_PENDING | ES_APPROVED | ES_REJECTED

text \<open>
  Rows of the tables. Identifiers are strings (uuid4 text), timestamps are natural
  numbers supplied by the caller (the code reads \<^verbatim>\<open>datetime.utcnow()\<close>), a nullable
  column is an option. Columns that no handler of the lifecycle engine reads or writes
  (names, phone, address, logo, billing details, ...) are left out.
\<close>

text \<open>
  The JSON column \<^verbatim>\<open>counseling_config\<close>, as \<^verbatim>\<open>update_counseling_config\<close>
  writes it (\<^verbatim>\<open>config.dict()\<close>): the key \<^verbatim>\<open>methods\<close> is always present.
\<close>

record CounselingConfig =
  methods :: "string list"

record Bank =
  bank_id :: string
  bank_email :: string
  bank_state :: BankState
  certification_documents :: "string list option"
  is_verified :: bool
  verified_at :: "nat option"
  verified_by :: "string option"
  is_subscribed :: bool
  subscription_tier :: "string option"
  subscription_started_at :: "nat option"
  subscription_expires_at :: "nat option"
  counseling_config :: "CounselingConfig option"

record Donor =
  donor_id :: string
  donor_email :: string
  hashed_password :: "string option"
  donor_state :: DonorState
  donor_bank_id :: "string option"
  legal_documents :: "string list option"
  consent_pending :: bool
  counseling_pending :: bool
  tests_pending :: bool
  eligibility_status :: EligibilityStatus
  eligibility_notes :: "string option"
  eligibility_decided_at :: "nat option"

record ConsentTemplate =
  template_id :: string
  template_bank_id :: string
  template_order :: int
  template_is_active :: bool

record DonorConsent =
  consent_id :: string
  consent_donor_id :: string
  consent_template_id :: string
  consent_status :: ConsentStatus
  signed_at :: "nat option"
  consent_verified_at :: "nat option"
  consent_verified_by :: "string option"
  verification_notes :: "string option"

record CounselingSession =
  session_id :: string
  session_donor_id :: string
  session_bank_id :: string
  session_method :: string

record TestReport =
  report_id :: string
  report_donor_id :: string
  report_bank_id :: string
  report_uploaded_by :: string

text \<open>
  History rows. The surrogate key and \<^verbatim>\<open>created_at\<close> are not stored: every
  transition commits on its own, so the order of the list is the order of
  \<^verbatim>\<open>created_at\<close>.
\<close>

record DonorStateHistory =
  dh_donor_id :: string
  dh_from_state :: "DonorState option"
  dh_to_state :: DonorState
  dh_changed_by :: string
  dh_changed_by_role :: string
  dh_reason :: "string option"

record BankStateHistory =
  bh_bank_id :: string
  bh_from_state :: "BankState option"
  bh_to_state :: BankState
  bh_changed_by :: string
  bh_reason :: "string option"

text \<open>
  The database session. The session factory is in \<^verbatim>\<open>database.py\<close>, which is
  not among the sources, so whether a query flushes pending changes first
  (SQLAlchemy's \<^verbatim>\<open>autoflush\<close>) is a parameter of the session here. The sources
  import \<^verbatim>\<open>SessionLocal\<close>, \<^verbatim>\<open>engine\<close>, \<^verbatim>\<open>Base\<close> and \<^verbatim>\<open>get_db\<close> from it, the
  names of the FastAPI template, whose factory is
  \<^verbatim>\<open>sessionmaker(autocommit=False, autoflush=False, bind=engine)\<close>. The tables are
  lists of rows in insertion order.
\<close>

record Session =
  autoflush :: bool
  banks :: "Bank list"
  donors :: "Donor list"
  consent_templates :: "ConsentTemplate list"
  donor_consents :: "DonorConsent list"
  counseling_sessions :: "CounselingSession list"
  test_reports :: "TestReport list"
  donor_state_history :: "DonorStateHistory list"
  bank_state_history :: "BankStateHistory list"

text \<open>
  What a handler raises: an \<^verbatim>\<open>HTTPException\<close> with its status code, the
  \<^verbatim>\<open>ValueError\<close> of the state machine, the \<^verbatim>\<open>IntegrityError\<close> of an insert
  whose primary key is already in the table, or the \<^verbatim>\<open>AttributeError\<close> of reading
  a column of \<^verbatim>\<open>None\<close>. Detail strings are not modelled.
\<close>

datatype error = HTTPException nat | ValueError | IntegrityError | AttributeError

section \<open>The state machine (utils/state\_machine.py)\<close>

definition DONOR_STATE_TRANSITIONS :: "DonorState \<rightharpoonup> DonorState list" where
  "DONOR_STATE_TRANSITIONS =
     [VISITOR \<mapsto> [BANK_SELECTED],
      BANK_SELECTED \<mapsto> [LEAD_CREATED],
      LEAD_CREATED \<mapsto> [ACCOUNT_CREATED],
      ACCOUNT_CREATED \<mapsto> [COUNSELING_REQUESTED],
      COUNSELING_REQUESTED \<mapsto> [CONSENT_PENDING],
      CONSENT_PENDING \<mapsto> [CONSENT_VERIFIED],
      CONSENT_VERIFIED \<mapsto> [TESTS_PENDING],
      TESTS_PENDING \<mapsto> [ELIGIBILITY_DECISION],
      ELIGIBILITY_DECISION \<mapsto> [DONOR_ONBOARDED],
      DONOR_ONBOARDED \<mapsto> []]"

definition BANK_STATE_TRANSITIONS :: "BankState \<rightharpoonup> BankState list" where
  "BANK_STATE_TRANSITIONS =
     [BANK_ACCOUNT_CREATED \<mapsto> [BANK_VERIFICATION_PENDING],
      BANK_VERIFICATION_PENDING \<mapsto> [BANK_VERIFIED],
      BANK_VERIFIED \<mapsto> [BANK_SUBSCRIPTION_PENDING],
      BANK_SUBSCRIPTION_PENDING \<mapsto> [BANK_SUBSCRIBED_ONBOARDED],
      BANK_SUBSCRIBED_ONBOARDED \<mapsto> [BANK_OPERATIONAL],
      BANK_OPERATIONAL \<mapsto> []]"

text \<open>\<^verbatim>\<open>d.get(k, [])\<close>\<close>

definition get_or_empty :: "('k \<rightharpoonup> 'v list) \<Rightarrow> 'k \<Rightarrow> 'v list" where
  "get_or_empty d k = (case d k of None \<Rightarrow> [] | Some vs \<Rightarrow> vs)"

definition can_transition_donor_state :: "DonorState \<Rightarrow> DonorState \<Rightarrow> bool" where
  "can_transition_donor_state current_state new_state =
     (new_state \<in> set (get_or_empty DONOR_STATE_TRANSITIONS current_state))"

definition can_transition_bank_state :: "BankState \<Rightarrow> BankState \<Rightarrow> bool" where
  "can_transition_bank_state current_state new_state =
     (new_state \<in> set (get_or_empty BANK_STATE_TRANSITIONS current_state))"

text \<open>
  \<^verbatim>\<open>db.commit()\<close> writes the attribute changes of a loaded object back to its row
  (the row with the object's primary key).
\<close>

definition commit_donor :: "Session \<Rightarrow> Donor \<Rightarrow> Session" where
  "commit_donor db donor =
     db\<lparr>donors := map (\<lambda>d. if donor_id d = donor_id donor then donor else d) (donors db)\<rparr>"

definition commit_bank :: "Session \<Rightarrow> Bank \<Rightarrow> Session" where
  "commit_bank db bank =
     db\<lparr>banks := map (\<lambda>b. if bank_id b = bank_id bank then bank else b) (banks db)\<rparr>"

text \<open>
  \<^verbatim>\<open>transition_donor_state(db, donor, new_state, changed_by, changed_by_role, reason)\<close>:
  raises before touching anything when the edge is not in the graph; otherwise sets
  the state of the object, adds the history row and commits. The function is a
  state transformer: it returns what it raised (or \<open>Inr ()\<close>) together with the
  session and the object as it leaves them.
\<close>

definition transition_donor_state ::
  "Session \<Rightarrow> Donor \<Rightarrow> DonorState \<Rightarrow> string \<Rightarrow> string \<Rightarrow> string option
     \<Rightarrow> (error + unit) \<times> Session \<times> Donor" where
  "transition_donor_state db donor new_state changed_by changed_by_role reason =
     (if \<not> can_transition_donor_state (donor_state donor) new_state
      then (Inl ValueError, db, donor)
      else
        let old_state = donor_state donor;
            donor' = donor\<lparr>donor_state := new_state\<rparr>;
            history = \<lparr>dh_donor_id = donor_id donor',
                       dh_from_state = Some old_state,
                       dh_to_state = new_state,
                       dh_changed_by = changed_by,
                       dh_changed_by_role = changed_by_role,
                       dh_reason = reason\<rparr>;
            db' = (commit_donor db donor')
                    \<lparr>donor_state_history := donor_state_history db @ [history]\<rparr>
        in (Inr (), db', donor'))"

definition transition_bank_state ::
  "Session \<Rightarrow> Bank \<Rightarrow> BankState \<Rightarrow> string \<Rightarrow> string option
     \<Rightarrow> (error + unit) \<times> Session \<times> Bank" where
  "transition_bank_state db bank new_state changed_by reason =
     (if \<not> can_transition_bank_state (bank_state bank) new_state
      then (Inl ValueError, db, bank)
      else
        let old_state = bank_state bank;
            bank' = bank\<lparr>bank_state := new_state\<rparr>;
            history = \<lparr>bh_bank_id = bank_id bank',
                       bh_from_state = Some old_state,
                       bh_to_state = new_state,
                       bh_changed_by = changed_by,
                       bh_reason = reason\<rparr>;
            db' = (commit_bank db bank')
                    \<lparr>bank_state_history := bank_state_history db @ [history]\<rparr>
        in (Inr (), db', bank'))"

section \<open>Dependencies (utils/dependencies.py)\<close>

text \<open>
  The decoded token is the pair \<^verbatim>\<open>(sub, type)\<close>; a token that does not decode is
  rejected with 401 before this point.
\<close>

datatype user = BankUser Bank | DonorUser Donor

definition get_current_user :: "Session \<Rightarrow> string \<Rightarrow> string \<Rightarrow> error + user" where
  "get_current_user db user_id user_type =
     (if user_type = ''bank'' then
        (case find (\<lambda>b. bank_id b = user_id) (banks db) of
           None \<Rightarrow> Inl (HTTPException 401)
         | Some b \<Rightarrow> Inr (BankUser b))
      else if user_type = ''donor'' then
        (case find (\<lambda>d. donor_id d = user_id) (donors db) of
           None \<Rightarrow> Inl (HTTPException 401)
         | Some d \<Rightarrow> Inr (DonorUser d))
      else Inl (HTTPException 401))"

fun get_current_bank :: "user \<Rightarrow> error + Bank" where
  "get_current_bank (BankUser b) = Inr b"
| "get_current_bank (DonorUser d) = Inl (HTTPException 403)"

fun get_current_donor :: "user \<Rightarrow> error + Donor" where
  "get_current_donor (DonorUser d) = Inr d"
| "get_current_donor (BankUser b) = Inl (HTTPException 403)"

definition get_verified_bank :: "Bank \<Rightarrow> error + Bank" where
  "get_verified_bank bank = (if \<not> is_verified bank then Inl (HTTPException 403) else Inr bank)"

definition get_subscribed_bank :: "Bank \<Rightarrow> error + Bank" where
  "get_subscribed_bank bank = (if \<not> is_subscribed bank then Inl (HTTPException 403) else Inr bank)"

text \<open>Sequencing of calls that may raise.\<close>

definition and_then :: "error + 'a \<Rightarrow> ('a \<Rightarrow> error + 'b) \<Rightarrow> error + 'b" where
  "and_then r f = (case r of Inl e \<Rightarrow> Inl e | Inr x \<Rightarrow> f x)"

text \<open>The same after a state transformer: an exception propagates, otherwise the
  handler goes on with the state the call left.\<close>

definition then_on :: "(error + unit) \<times> 's \<Rightarrow> ('s \<Rightarrow> error + 'b) \<Rightarrow> error + 'b" where
  "then_on r f = (case fst r of Inl e \<Rightarrow> Inl e | Inr u \<Rightarrow> f (snd r))"

section \<open>Donor routes (api/routes/donor.py)\<close>

text \<open>
  Each handler takes the session and returns the session after its last commit, or
  what it raised; a handler that raises leaves the database as it was (the session
  is closed without a commit). Fresh primary keys (\<^verbatim>\<open>generate_uuid\<close>), the clock and
  the outcome of the file upload are arguments. Response bodies are not modelled.
\<close>

definition create_lead :: "Session \<Rightarrow> string \<Rightarrow> string \<Rightarrow> string \<Rightarrow> error + Session" where
  "create_lead db lead_bank_id email new_id =
     (case find (\<lambda>b. bank_id b = lead_bank_id) (banks db) of
        None \<Rightarrow> Inl (HTTPException 400)
      | Some bank \<Rightarrow>
          if \<not> is_verified bank \<or> \<not> is_subscribed bank then Inl (HTTPException 400)
          else
            (case find (\<lambda>d. donor_email d = email) (donors db) of
               Some existing_donor \<Rightarrow> Inl (HTTPException 400)
             | None \<Rightarrow>
                 if new_id \<in> donor_id ` set (donors db) then Inl IntegrityError
                 else
                   let donor = \<lparr>donor_id = new_id,
                                donor_email = email,
                                hashed_password = None,
                                donor_state = BANK_SELECTED,
                                donor_bank_id = Some (bank_id bank),
                                legal_documents = None,
                                consent_pending = True,
                                counseling_pending = True,
                                tests_pending = True,
                                eligibility_status = ES_PENDING,
                                eligibility_notes = None,
                                eligibility_decided_at = None\<rparr>;
                       db1 = db\<lparr>donors := donors db @ [donor]\<rparr>
                   in then_on
                        (transition_donor_state db1 donor LEAD_CREATED (donor_id donor) ''donor''
                           (Some ''Lead created with bank selection''))
                        (\<lambda>(db2, donor2). Inr db2)))"

definition create_account ::
  "Session \<Rightarrow> string \<Rightarrow> string \<Rightarrow> string list option \<Rightarrow> error + Session" where
  "create_account db email password_hash account_legal_documents =
     (case find (\<lambda>d. donor_email d = email) (donors db) of
        None \<Rightarrow> Inl (HTTPException 404)
      | Some donor \<Rightarrow>
          if donor_state donor \<noteq> LEAD_CREATED then Inl (HTTPException 400)
          else
            let donor1 = donor\<lparr>hashed_password := Some password_hash\<rparr>;
                donor2 = (case account_legal_documents of
                            None \<Rightarrow> donor1
                          | Some docs \<Rightarrow>
                              if docs = [] then donor1
                              else donor1\<lparr>legal_documents := Some docs\<rparr>)
            in then_on
                 (transition_donor_state db donor2 ACCOUNT_CREATED (donor_id donor2) ''donor''
                    (Some ''Account created with credentials''))
                 (\<lambda>(db1, donor3). Inr db1))"

text \<open>
  \<^verbatim>\<open>sign_consent\<close>. The count of signed consents is queried after
  \<^verbatim>\<open>db.add(consent)\<close>: with autoflush the query flushes the pending row first and
  counts it, without autoflush it reads the table as it was.
\<close>

definition sign_consent ::
  "Session \<Rightarrow> Donor \<Rightarrow> string \<Rightarrow> string \<Rightarrow> nat \<Rightarrow> error + Session" where
  "sign_consent db current_donor sign_template_id new_id now =
     (if donor_state current_donor \<notin> set [CONSENT_PENDING, COUNSELING_REQUESTED, ACCOUNT_CREATED]
      then Inl (HTTPException 400)
      else
        (case find (\<lambda>t. template_id t = sign_template_id
                         \<and> Some (template_bank_id t) = donor_bank_id current_donor)
                (consent_templates db) of
           None \<Rightarrow> Inl (HTTPException 404)
         | Some template \<Rightarrow>
             (case find (\<lambda>c. consent_donor_id c = donor_id current_donor
                              \<and> consent_template_id c = sign_template_id)
                     (donor_consents db) of
                Some existing \<Rightarrow> Inl (HTTPException 400)
              | None \<Rightarrow>
                  if new_id \<in> consent_id ` set (donor_consents db) then Inl IntegrityError
                  else
                    let consent = \<lparr>consent_id = new_id,
                                   consent_donor_id = donor_id current_donor,
                                   consent_template_id = sign_template_id,
                                   consent_status = CS_SIGNED,
                                   signed_at = Some now,
                                   consent_verified_at = None,
                                   consent_verified_by = None,
                                   verification_notes = None\<rparr>;
                        db1 = db\<lparr>donor_consents := donor_consents db @ [consent]\<rparr>;
                        visible = (if autoflush db then db1 else db);
                        total_consents =
                          length (filter (\<lambda>c. consent_donor_id c = donor_id current_donor
                                              \<and> consent_status c = CS_SIGNED)
                                    (donor_consents visible))
                    in if donor_state current_donor = COUNSELING_REQUESTED \<and> total_consents = 0
                       then then_on
                              (transition_donor_state db1 current_donor CONSENT_PENDING
                                 (donor_id current_donor) ''donor''
                                 (Some ''Started signing consent forms''))
                              (\<lambda>(db2, donor2). Inr db2)
                       else Inr db1)))"

definition request_counseling ::
  "Session \<Rightarrow> Donor \<Rightarrow> string \<Rightarrow> string \<Rightarrow> error + Session" where
  "request_counseling db current_donor method new_id =
     (if donor_state current_donor \<noteq> ACCOUNT_CREATED then Inl (HTTPException 400)
      else if donor_bank_id current_donor = None \<or> donor_bank_id current_donor = Some []
      then Inl (HTTPException 400)
      else
        (case find (\<lambda>b. Some (bank_id b) = donor_bank_id current_donor) (banks db) of
           None \<Rightarrow> Inl AttributeError
         | Some bank \<Rightarrow>
             if (case counseling_config bank of
                   None \<Rightarrow> False
                 | Some config \<Rightarrow> method \<notin> set (methods config))
             then Inl (HTTPException 400)
             else
               let session = \<lparr>session_id = new_id,
                              session_donor_id = donor_id current_donor,
                              session_bank_id = bank_id bank,
                              session_method = method\<rparr>;
                   db1 = db\<lparr>counseling_sessions := counseling_sessions db @ [session]\<rparr>
               in then_on
                    (transition_donor_state db1 current_donor COUNSELING_REQUESTED
                       (donor_id current_donor) ''donor'' (Some ''Counseling requested''))
                    (\<lambda>(db2, donor2). Inr db2)))"

section \<open>Bank routes (api/routes/auth.py, api/routes/bank.py)\<close>

definition register_bank :: "Session \<Rightarrow> string \<Rightarrow> string \<Rightarrow> error + Session" where
  "register_bank db email new_id =
     (case find (\<lambda>b. bank_email b = email) (banks db) of
        Some existing_bank \<Rightarrow> Inl (HTTPException 400)
      | None \<Rightarrow>
          if new_id \<in> bank_id ` set (banks db) then Inl IntegrityError
          else
            let bank = \<lparr>bank_id = new_id,
                        bank_email = email,
                        bank_state = BANK_ACCOUNT_CREATED,
                        certification_documents = None,
                        is_verified = False,
                        verified_at = None,
                        verified_by = None,
                        is_subscribed = False,
                        subscription_tier = None,
                        subscription_started_at = None,
                        subscription_expires_at = None,
                        counseling_config = None\<rparr>
            in Inr (db\<lparr>banks := banks db @ [bank]\<rparr>))"

definition upload_certification ::
  "Session \<Rightarrow> Bank \<Rightarrow> error + string \<Rightarrow> error + Session" where
  "upload_certification db current_bank upload =
     (case upload of
        Inl e \<Rightarrow> Inl e
      | Inr file_url \<Rightarrow>
          let docs = (case certification_documents current_bank of
                        None \<Rightarrow> []
                      | Some ds \<Rightarrow> ds);
              bank1 = current_bank\<lparr>certification_documents := Some (docs @ [file_url])\<rparr>
          in if bank_state bank1 = BANK_ACCOUNT_CREATED
             then then_on
                    (transition_bank_state db bank1 BANK_VERIFICATION_PENDING (bank_id bank1)
                       (Some ''Certification documents uploaded''))
                    (\<lambda>(db1, bank2). Inr db1)
             else Inr (commit_bank db bank1))"

definition update_counseling_config :: "Session \<Rightarrow> Bank \<Rightarrow> string list \<Rightarrow> error + Session" where
  "update_counseling_config db current_bank config_methods =
     Inr (commit_bank db (current_bank\<lparr>counseling_config := Some \<lparr>methods = config_methods\<rparr>\<rparr>))"

definition create_subscription :: "Session \<Rightarrow> Bank \<Rightarrow> string \<Rightarrow> nat \<Rightarrow> error + Session" where
  "create_subscription db current_bank tier now =
     (if bank_state current_bank \<noteq> BANK_VERIFIED then Inl (HTTPException 400)
      else
        let bank1 = current_bank\<lparr>subscription_tier := Some tier,
                                 is_subscribed := True,
                                 subscription_started_at := Some now\<rparr>
        in then_on
             (transition_bank_state db bank1 BANK_SUBSCRIPTION_PENDING (bank_id bank1)
                (Some ''Subscription initiated''))
             (\<lambda>(db1, bank2).
                then_on
                  (transition_bank_state db1 bank2 BANK_SUBSCRIBED_ONBOARDED (bank_id bank2)
                     (Some ''Subscription completed''))
                  (\<lambda>(db2, bank3).
                     then_on
                       (transition_bank_state db2 bank3 BANK_OPERATIONAL (bank_id bank3)
                          (Some ''Bank is now operational''))
                       (\<lambda>(db3, bank4). Inr db3))))"

text \<open>
  \<^verbatim>\<open>upload_consent_template\<close> and its test twin \<^verbatim>\<open>create_consent_template_test\<close>
  (the same without the upload: pass \<open>Inr url\<close>).
\<close>

definition upload_consent_template ::
  "Session \<Rightarrow> Bank \<Rightarrow> int \<Rightarrow> error + string \<Rightarrow> string \<Rightarrow> error + Session" where
  "upload_consent_template db current_bank order upload new_id =
     (if order < 1 \<or> order > 4 then Inl (HTTPException 400)
      else
        (case upload of
           Inl e \<Rightarrow> Inl e
         | Inr file_url \<Rightarrow>
             if new_id \<in> template_id ` set (consent_templates db) then Inl IntegrityError
             else
               let template = \<lparr>template_id = new_id,
                               template_bank_id = bank_id current_bank,
                               template_order = order,
                               template_is_active = True\<rparr>
               in Inr (db\<lparr>consent_templates := consent_templates db @ [template]\<rparr>)))"

definition update_consent_template ::
  "Session \<Rightarrow> Bank \<Rightarrow> string \<Rightarrow> (error + string) option \<Rightarrow> int option \<Rightarrow> bool option
     \<Rightarrow> error + Session" where
  "update_consent_template db current_bank tid upload order is_active =
     (case find (\<lambda>t. template_id t = tid \<and> template_bank_id t = bank_id current_bank)
             (consent_templates db) of
        None \<Rightarrow> Inl (HTTPException 404)
      | Some template \<Rightarrow>
          (case (case upload of None \<Rightarrow> None | Some (Inl e) \<Rightarrow> Some e | Some (Inr url) \<Rightarrow> None) of
             Some e \<Rightarrow> Inl e
           | None \<Rightarrow>
               if (case order of None \<Rightarrow> False | Some n \<Rightarrow> n < 1 \<or> n > 4)
               then Inl (HTTPException 400)
               else
                 let template1 = (case order of
                                    None \<Rightarrow> template
                                  | Some n \<Rightarrow> template\<lparr>template_order := n\<rparr>);
                     template2 = (case is_active of
                                    None \<Rightarrow> template1
                                  | Some a \<Rightarrow> template1\<lparr>template_is_active := a\<rparr>)
                 in Inr (db\<lparr>consent_templates :=
                              map (\<lambda>t. if template_id t = template_id template2 then template2 else t)
                                (consent_templates db)\<rparr>)))"

text \<open>
  \<^verbatim>\<open>verify_consent\<close>. The two counts are queried after the attributes of the loaded
  consent were set: with autoflush the queries see the new status, without it they
  read the table as it was.
\<close>

definition verify_consent ::
  "Session \<Rightarrow> Bank \<Rightarrow> string \<Rightarrow> ConsentStatus \<Rightarrow> string option \<Rightarrow> nat \<Rightarrow> error + Session" where
  "verify_consent db current_bank verify_consent_id verify_status notes now =
     (case find (\<lambda>c. consent_id c = verify_consent_id) (donor_consents db) of
        None \<Rightarrow> Inl (HTTPException 404)
      | Some consent \<Rightarrow>
          (case find (\<lambda>d. donor_id d = consent_donor_id consent
                           \<and> donor_bank_id d = Some (bank_id current_bank))
                  (donors db) of
             None \<Rightarrow> Inl (HTTPException 403)
           | Some donor \<Rightarrow>
               let consent1 = consent\<lparr>consent_status := verify_status,
                                      consent_verified_at := Some now,
                                      consent_verified_by := Some (bank_id current_bank),
                                      verification_notes := notes\<rparr>;
                   db1 = db\<lparr>donor_consents :=
                              map (\<lambda>c. if consent_id c = consent_id consent1 then consent1 else c)
                                (donor_consents db)\<rparr>;
                   visible = (if autoflush db then db1 else db);
                   total_consents =
                     length (filter (\<lambda>c. consent_donor_id c = donor_id donor)
                               (donor_consents visible));
                   verified_consents =
                     length (filter (\<lambda>c. consent_donor_id c = donor_id donor
                                         \<and> consent_status c = CS_VERIFIED)
                               (donor_consents visible))
               in if total_consents \<ge> 4 \<and> verified_consents \<ge> 4
                  then
                    if donor_state donor = CONSENT_PENDING
                    then then_on
                           (transition_donor_state db1 donor CONSENT_VERIFIED
                              (bank_id current_bank) ''bank''
                              (Some ''All consents verified by bank''))
                           (\<lambda>(db2, donor2). Inr db2)
                    else Inr db1
                  else Inr db1))"

definition upload_test_report ::
  "Session \<Rightarrow> Bank \<Rightarrow> string \<Rightarrow> error + string \<Rightarrow> string \<Rightarrow> error + Session" where
  "upload_test_report db current_bank report_for_donor upload new_id =
     (case find (\<lambda>d. donor_id d = report_for_donor
                      \<and> donor_bank_id d = Some (bank_id current_bank))
             (donors db) of
        None \<Rightarrow> Inl (HTTPException 404)
      | Some donor \<Rightarrow>
          if donor_state donor \<notin> set [CONSENT_VERIFIED, TESTS_PENDING]
          then Inl (HTTPException 400)
          else
            (case upload of
               Inl e \<Rightarrow> Inl e
             | Inr file_url \<Rightarrow>
                 let report = \<lparr>report_id = new_id,
                               report_donor_id = donor_id donor,
                               report_bank_id = bank_id current_bank,
                               report_uploaded_by = bank_id current_bank\<rparr>;
                     db1 = db\<lparr>test_reports := test_reports db @ [report]\<rparr>
                 in if donor_state donor = CONSENT_VERIFIED
                    then then_on
                           (transition_donor_state db1 donor TESTS_PENDING
                              (bank_id current_bank) ''bank''
                              (Some ''Test report uploaded by bank''))
                           (\<lambda>(db2, donor2). Inr db2)
                    else Inr db1))"

text \<open>
  \<^verbatim>\<open>make_eligibility_decision\<close>. The reason of the first transition is the f-string
  \<^verbatim>\<open>"Eligibility decision: {decision.status.value}"\<close>.
\<close>

fun EligibilityStatus_value :: "EligibilityStatus \<Rightarrow> string" where
  "EligibilityStatus_value ES_PENDING = ''pending''"
| "EligibilityStatus_value ES_APPROVED = ''approved''"
| "EligibilityStatus_value ES_REJECTED = ''rejected''"

definition make_eligibility_decision ::
  "Session \<Rightarrow> Bank \<Rightarrow> string \<Rightarrow> EligibilityStatus \<Rightarrow> string option \<Rightarrow> nat
     \<Rightarrow> error + Session" where
  "make_eligibility_decision db current_bank decision_donor_id decision_status decision_notes now =
     (case find (\<lambda>d. donor_id d = decision_donor_id
                      \<and> donor_bank_id d = Some (bank_id current_bank))
             (donors db) of
        None \<Rightarrow> Inl (HTTPException 404)
      | Some donor \<Rightarrow>
          if donor_state donor \<noteq> TESTS_PENDING then Inl (HTTPException 400)
          else
            let donor1 = donor\<lparr>eligibility_status := decision_status,
                                eligibility_notes := decision_notes,
                                eligibility_decided_at := Some now\<rparr>
            in then_on
                 (transition_donor_state db donor1 ELIGIBILITY_DECISION
                    (bank_id current_bank) ''bank''
                    (Some (''Eligibility decision: '' @ EligibilityStatus_value decision_status)))
                 (\<lambda>(db1, donor2).
                    if decision_status = ES_APPROVED
                    then then_on
                           (transition_donor_state db1 donor2 DONOR_ONBOARDED
                              (bank_id current_bank) ''bank''
                              (Some ''Donor approved and onboarded''))
                           (\<lambda>(db2, donor3). Inr db2)
                    else Inr db1))"

section \<open>Admin routes (adminside/backend/routes.py)\<close>

text \<open>
  The admin portal maps the same \<^verbatim>\<open>banks\<close> table with \<^verbatim>\<open>state\<close> as a plain
  string column and assigns it directly. \<^verbatim>\<open>require_role\<close> has already loaded the
  admin; its role is an argument. The activity log is not modelled.
\<close>

definition require_role :: "string list \<Rightarrow> string \<Rightarrow> error + unit" where
  "require_role required_roles admin_role =
     (if admin_role \<notin> set required_roles then Inl (HTTPException 403) else Inr ())"

definition verify_bank ::
  "Session \<Rightarrow> string \<Rightarrow> string \<Rightarrow> string \<Rightarrow> nat \<Rightarrow> error + Session" where
  "verify_bank db admin_role verify_bank_id verify_verified_by now =
     and_then (require_role [''super_admin'', ''support''] admin_role)
       (\<lambda>_. case find (\<lambda>b. bank_id b = verify_bank_id) (banks db) of
               None \<Rightarrow> Inl (HTTPException 404)
             | Some bank \<Rightarrow>
                 if is_verified bank then Inl (HTTPException 400)
                 else
                   let bank1 = bank\<lparr>is_verified := True,
                                    verified_at := Some now,
                                    verified_by := Some verify_verified_by\<rparr>;
                       bank2 = (if bank_state bank1 = BANK_VERIFICATION_PENDING
                                then bank1\<lparr>bank_state := BANK_VERIFIED\<rparr>
                                else bank1)
                   in Inr (commit_bank db bank2))"

definition update_bank_subscription ::
  "Session \<Rightarrow> string \<Rightarrow> string \<Rightarrow> string \<Rightarrow> nat \<Rightarrow> nat \<Rightarrow> error + Session" where
  "update_bank_subscription db admin_role sub_bank_id tier started_at expires_at =
     and_then (require_role [''super_admin'', ''support''] admin_role)
       (\<lambda>_. case find (\<lambda>b. bank_id b = sub_bank_id) (banks db) of
               None \<Rightarrow> Inl (HTTPException 404)
             | Some bank \<Rightarrow>
                 if \<not> is_verified bank then Inl (HTTPException 400)
                 else
                   let bank1 = bank\<lparr>is_subscribed := True,
                                    subscription_tier := Some tier,
                                    subscription_started_at := Some started_at,
                                    subscription_expires_at := Some expires_at\<rparr>;
                       bank2 = (if bank_state bank1 \<in> set [BANK_VERIFIED, BANK_SUBSCRIPTION_PENDING]
                                then bank1\<lparr>bank_state := BANK_SUBSCRIBED_ONBOARDED\<rparr>
                                else bank1)
                   in Inr (commit_bank db bank2))"

section \<open>Service-layer predicates (services/business\_logic.py)\<close>

definition can_sign_consent :: "Donor \<Rightarrow> bool" where
  "can_sign_consent donor = (donor_state donor \<in> set [COUNSELING_REQUESTED, CONSENT_PENDING])"

text \<open>\<^verbatim>\<open>TestReportService.can_bank_upload_report\<close> and
  \<^verbatim>\<open>BankService.can_make_eligibility_decision\<close>: the ownership check raises 403.\<close>

definition can_bank_upload_report :: "Bank \<Rightarrow> Donor \<Rightarrow> error + bool" where
  "can_bank_upload_report bank donor =
     (if donor_bank_id donor \<noteq> Some (bank_id bank) then Inl (HTTPException 403) else Inr True)"

definition can_make_eligibility_decision :: "Bank \<Rightarrow> Donor \<Rightarrow> error + bool" where
  "can_make_eligibility_decision bank donor =
     (if donor_bank_id donor \<noteq> Some (bank_id bank) then Inl (HTTPException 403)
      else if donor_state donor \<noteq> TESTS_PENDING then Inl (HTTPException 400)
      else Inr True)"

section \<open>Requests\<close>

text \<open>
  One constructor per endpoint that writes to a modelled table. A request of a
  logged-in user carries the decoded token (\<open>sub\<close>, \<open>type\<close>).
  \<^verbatim>\<open>PUT /api/bank/me\<close> and the counseling-session endpoints only write columns
  and tables that are not modelled.
\<close>

datatype operation =
    RegisterBank string string
  | UploadCertification string string "error + string"
  | UpdateCounselingConfig string string "string list"
  | CreateSubscription string string string nat
  | UploadConsentTemplate string string int "error + string" string
  | UpdateConsentTemplate string string string "(error + string) option" "int option" "bool option"
  | VerifyConsent string string string ConsentStatus "string option" nat
  | UploadTestReport string string string "error + string" string
  | MakeEligibilityDecision string string string EligibilityStatus "string option" nat
  | CreateLead string string string
  | CreateAccount string string "string list option"
  | SignConsent string string string string nat
  | RequestCounseling string string string string
  | AdminVerifyBank string string string nat
  | AdminUpdateBankSubscription string string string nat nat

definition current_bank_of :: "Session \<Rightarrow> string \<Rightarrow> string \<Rightarrow> error + Bank" where
  "current_bank_of db sub type = and_then (get_current_user db sub type) get_current_bank"

definition verified_bank_of :: "Session \<Rightarrow> string \<Rightarrow> string \<Rightarrow> error + Bank" where
  "verified_bank_of db sub type = and_then (current_bank_of db sub type) get_verified_bank"

definition subscribed_bank_of :: "Session \<Rightarrow> string \<Rightarrow> string \<Rightarrow> error + Bank" where
  "subscribed_bank_of db sub type = and_then (verified_bank_of db sub type) get_subscribed_bank"

definition current_donor_of :: "Session \<Rightarrow> string \<Rightarrow> string \<Rightarrow> error + Donor" where
  "current_donor_of db sub type = and_then (get_current_user db sub type) get_current_donor"

text \<open>The routing table: each endpoint with the dependency its handler declares.\<close>

fun request :: "Session \<Rightarrow> operation \<Rightarrow> error + Session" where
  "request db (RegisterBank email new_id) = register_bank db email new_id"
| "request db (UploadCertification sub type upload) =
     and_then (current_bank_of db sub type) (\<lambda>b. upload_certification db b upload)"
| "request db (UpdateCounselingConfig sub type ms) =
     and_then (subscribed_bank_of db sub type) (\<lambda>b. update_counseling_config db b ms)"
| "request db (CreateSubscription sub type tier now) =
     and_then (verified_bank_of db sub type) (\<lambda>b. create_subscription db b tier now)"
| "request db (UploadConsentTemplate sub type order upload new_id) =
     and_then (current_bank_of db sub type)
       (\<lambda>b. upload_consent_template db b order upload new_id)"
| "request db (UpdateConsentTemplate sub type tid upload order is_active) =
     and_then (current_bank_of db sub type)
       (\<lambda>b. update_consent_template db b tid upload order is_active)"
| "request db (VerifyConsent sub type cid st notes now) =
     and_then (subscribed_bank_of db sub type) (\<lambda>b. verify_consent db b cid st notes now)"
| "request db (UploadTestReport sub type did upload new_id) =
     and_then (subscribed_bank_of db sub type) (\<lambda>b. upload_test_report db b did upload new_id)"
| "request db (MakeEligibilityDecision sub type did st notes now) =
     and_then (subscribed_bank_of db sub type)
       (\<lambda>b. make_eligibility_decision db b did st notes now)"
| "request db (CreateLead bid email new_id) = create_lead db bid email new_id"
| "request db (CreateAccount email pw docs) = create_account db email pw docs"
| "request db (SignConsent sub type tid new_id now) =
     and_then (current_donor_of db sub type) (\<lambda>d. sign_consent db d tid new_id now)"
| "request db (RequestCounseling sub type method new_id) =
     and_then (current_donor_of db sub type) (\<lambda>d. request_counseling db d method new_id)"
| "request db (AdminVerifyBank role bid vb now) = verify_bank db role bid vb now"
| "request db (AdminUpdateBankSubscription role bid tier started expires) =
     update_bank_subscription db role bid tier started expires"

text \<open>A request that raises leaves the database as it was.\<close>

definition apply_request :: "Session \<Rightarrow> operation \<Rightarrow> Session" where
  "apply_request db op = (case request db op of Inl e \<Rightarrow> db | Inr db' \<Rightarrow> db')"

fun run :: "Session \<Rightarrow> operation list \<Rightarrow> Session" where
  "run db [] = db"
| "run db (op # ops) = run (apply_request db op) ops"

definition empty_db :: "bool \<Rightarrow> Session" where
  "empty_db af =
     \<lparr>autoflush = af, banks = [], donors = [], consent_templates = [], donor_consents = [],
      counseling_sessions = [], test_reports = [], donor_state_history = [],
      bank_state_history = []\<rparr>"

text \<open>The rows of one entity, as the history endpoints filter them.\<close>

definition donor_history_of :: "Session \<Rightarrow> string \<Rightarrow> DonorStateHistory list" where
  "donor_history_of db i = filter (\<lambda>h. dh_donor_id h = i) (donor_state_history db)"

definition bank_history_of :: "Session \<Rightarrow> string \<Rightarrow> BankStateHistory list" where
  "bank_history_of db i = filter (\<lambda>h. bh_bank_id h = i) (bank_state_history db)"

definition get_donor :: "Session \<Rightarrow> string \<Rightarrow> Donor option" where
  "get_donor db i = find (\<lambda>d. donor_id d = i) (donors db)"

definition get_bank :: "Session \<Rightarrow> string \<Rightarrow> Bank option" where
  "get_bank db i = find (\<lambda>b. bank_id b = i) (banks db)"

section \<open>Histories as chains\<close>

text \<open>
  Consecutive entries are linked when each entry starts where the one before it
  ended.
\<close>

fun donor_entries_linked :: "DonorStateHistory list \<Rightarrow> bool" where
  "donor_entries_linked (h1 # h2 # hs) =
     (dh_from_state h2 = Some (dh_to_state h1) \<and> donor_entries_linked (h2 # hs))"
| "donor_entries_linked hs = True"

fun bank_entries_linked :: "BankStateHistory list \<Rightarrow> bool" where
  "bank_entries_linked (h1 # h2 # hs) =
     (bh_from_state h2 = Some (bh_to_state h1) \<and> bank_entries_linked (h2 # hs))"
| "bank_entries_linked hs = True"

text \<open>The column defaults of \<^verbatim>\<open>Donor.state\<close> and \<^verbatim>\<open>Bank.state\<close>.\<close>

definition donor_initial_state :: DonorState where
  "donor_initial_state = VISITOR"

definition bank_initial_state :: BankState where
  "bank_initial_state = BANK_ACCOUNT_CREATED"

text \<open>Entry 0 starts at the given state, or has no \<^verbatim>\<open>from_state\<close>.\<close>

definition donor_first_entry_from :: "DonorState \<Rightarrow> DonorStateHistory list \<Rightarrow> bool" where
  "donor_first_entry_from s hs =
     (case hs of [] \<Rightarrow> True | h # rest \<Rightarrow> dh_from_state h = Some s \<or> dh_from_state h = None)"

definition bank_first_entry_from :: "BankState \<Rightarrow> BankStateHistory list \<Rightarrow> bool" where
  "bank_first_entry_from s hs =
     (case hs of [] \<Rightarrow> True | h # rest \<Rightarrow> bh_from_state h = Some s \<or> bh_from_state h = None)"

text \<open>
  A history that is a path through the donor graph: it starts at \<open>s\<close>, every entry
  is an edge of \<^verbatim>\<open>DONOR_STATE_TRANSITIONS\<close> leaving the state the entry before
  reached, and it ends at \<open>cur\<close>.
\<close>

fun donor_chain :: "DonorState \<Rightarrow> DonorStateHistory list \<Rightarrow> DonorState \<Rightarrow> bool" where
  "donor_chain s [] cur = (cur = s)"
| "donor_chain s (h # hs) cur =
     (dh_from_state h = Some s \<and> can_transition_donor_state s (dh_to_state h)
      \<and> donor_chain (dh_to_state h) hs cur)"

text \<open>The committed states follow edges: each state is a successor of the one before.\<close>

fun follows_donor_edges :: "DonorState \<Rightarrow> DonorState list \<Rightarrow> bool" where
  "follows_donor_edges s [] = True"
| "follows_donor_edges s (t # ts) = (can_transition_donor_state s t \<and> follows_donor_edges t ts)"

text \<open>Positions along the two chains.\<close>

fun donor_rank :: "DonorState \<Rightarrow> nat" where
  "donor_rank VISITOR = 0"
| "donor_rank BANK_SELECTED = 1"
| "donor_rank LEAD_CREATED = 2"
| "donor_rank ACCOUNT_CREATED = 3"
| "donor_rank COUNSELING_REQUESTED = 4"
| "donor_rank CONSENT_PENDING = 5"
| "donor_rank CONSENT_VERIFIED = 6"
| "donor_rank TESTS_PENDING = 7"
| "donor_rank ELIGIBILITY_DECISION = 8"
| "donor_rank DONOR_ONBOARDED = 9"

fun bank_rank :: "BankState \<Rightarrow> nat" where
  "bank_rank BANK_UNREGISTERED = 0"
| "bank_rank BANK_ACCOUNT_CREATED = 1"
| "bank_rank BANK_VERIFICATION_PENDING = 2"
| "bank_rank BANK_VERIFIED = 3"
| "bank_rank BANK_SUBSCRIPTION_PENDING = 4"
| "bank_rank BANK_SUBSCRIBED_ONBOARDED = 5"
| "bank_rank BANK_OPERATIONAL = 6"

text \<open>
  The invariant of the donor tables: primary keys are unique, every history row
  belongs to a donor, and the rows of each donor are a path from \<^verbatim>\<open>BANK_SELECTED\<close>
  (the state \<^verbatim>\<open>create_lead\<close> inserts a donor with) to the donor's current state.
\<close>

definition donor_inv :: "Session \<Rightarrow> bool" where
  "donor_inv db =
     (distinct (map donor_id (donors db))
      \<and> (\<forall>h \<in> set (donor_state_history db). dh_donor_id h \<in> donor_id ` set (donors db))
      \<and> (\<forall>d \<in> set (donors db).
            donor_chain BANK_SELECTED (donor_history_of db (donor_id d)) (donor_state d)))"

text \<open>
  What one request can do to the donor tables: nothing; one transition of one donor
  out of a state other than \<^verbatim>\<open>ELIGIBILITY_DECISION\<close>; the two transitions of an
  approval; or a new lead.
\<close>

inductive donor_effect :: "Session \<Rightarrow> Session \<Rightarrow> bool" where
  unchanged:
    "donors db' = donors db \<Longrightarrow> donor_state_history db' = donor_state_history db
     \<Longrightarrow> donor_effect db db'"
| moved:
    "d0 \<in> set (donors db) \<Longrightarrow> donor_id d1 = donor_id d0
     \<Longrightarrow> donor_state d0 \<noteq> ELIGIBILITY_DECISION
     \<Longrightarrow> can_transition_donor_state (donor_state d0) (donor_state d1)
     \<Longrightarrow> donors db' = map (\<lambda>x. if donor_id x = donor_id d0 then d1 else x) (donors db)
     \<Longrightarrow> donor_state_history db' = donor_state_history db @ [h]
     \<Longrightarrow> dh_donor_id h = donor_id d0 \<Longrightarrow> dh_from_state h = Some (donor_state d0)
     \<Longrightarrow> dh_to_state h = donor_state d1
     \<Longrightarrow> donor_effect db db'"
| onboarded:
    "d0 \<in> set (donors db) \<Longrightarrow> donor_id d1 = donor_id d0
     \<Longrightarrow> donor_state d0 = TESTS_PENDING \<Longrightarrow> donor_state d1 = DONOR_ONBOARDED
     \<Longrightarrow> donors db' = map (\<lambda>x. if donor_id x = donor_id d0 then d1 else x) (donors db)
     \<Longrightarrow> donor_state_history db' = donor_state_history db @ [h1, h2]
     \<Longrightarrow> dh_donor_id h1 = donor_id d0 \<Longrightarrow> dh_from_state h1 = Some TESTS_PENDING
     \<Longrightarrow> dh_to_state h1 = ELIGIBILITY_DECISION
     \<Longrightarrow> dh_donor_id h2 = donor_id d0 \<Longrightarrow> dh_from_state h2 = Some ELIGIBILITY_DECISION
     \<Longrightarrow> dh_to_state h2 = DONOR_ONBOARDED
     \<Longrightarrow> donor_effect db db'"
| lead:
    "donor_id dn \<notin> donor_id ` set (donors db) \<Longrightarrow> donor_state dn = LEAD_CREATED
     \<Longrightarrow> donors db' = donors db @ [dn]
     \<Longrightarrow> donor_state_history db' = donor_state_history db @ [h]
     \<Longrightarrow> dh_donor_id h = donor_id dn \<Longrightarrow> dh_from_state h = Some BANK_SELECTED
     \<Longrightarrow> dh_to_state h = LEAD_CREATED
     \<Longrightarrow> donor_effect db db'"

text \<open>
  What one request can do to the bank table: nothing; rewrite one bank without moving
  its state backwards; or add a bank.
\<close>

inductive bank_effect :: "Session \<Rightarrow> Session \<Rightarrow> bool" where
  same: "banks db' = banks db \<Longrightarrow> bank_effect db db'"
| changed:
    "b0 \<in> set (banks db) \<Longrightarrow> bank_id b1 = bank_id b0
     \<Longrightarrow> bank_rank (bank_state b0) \<le> bank_rank (bank_state b1)
     \<Longrightarrow> banks db' = map (\<lambda>x. if bank_id x = bank_id b0 then b1 else x) (banks db)
     \<Longrightarrow> bank_effect db db'"
| added:
    "bank_id bn \<notin> bank_id ` set (banks db) \<Longrightarrow> banks db' = banks db @ [bn]
     \<Longrightarrow> bank_effect db db'"

text \<open>
  The quorum test of \<^verbatim>\<open>verify_consent\<close> (\<^verbatim>\<open>total_consents >= 4 and
  verified_consents >= 4\<close>), read on the rows of a given session.
\<close>

definition quorum_reached :: "Session \<Rightarrow> string \<Rightarrow> bool" where
  "quorum_reached db i =
     (length (filter (\<lambda>c. consent_donor_id c = i) (donor_consents db)) \<ge> 4
      \<and> length (filter (\<lambda>c. consent_donor_id c = i \<and> consent_status c = CS_VERIFIED)
                  (donor_consents db)) \<ge> 4)"

section \<open>Example data\<close>

definition example_visitor :: Donor where
  "example_visitor =
     \<lparr>donor_id = ''D0'', donor_email = ''d0@example.com'', hashed_password = None,
      donor_state = VISITOR, donor_bank_id = None, legal_documents = None,
      consent_pending = False, counseling_pending = False, tests_pending = False,
      eligibility_status = ES_PENDING, eligibility_notes = None,
      eligibility_decided_at = None\<rparr>"

definition example_new_bank :: Bank where
  "example_new_bank =
     \<lparr>bank_id = ''B0'', bank_email = ''b0@example.com'', bank_state = BANK_ACCOUNT_CREATED,
      certification_documents = None, is_verified = False, verified_at = None,
      verified_by = None, is_subscribed = False, subscription_tier = None,
      subscription_started_at = None, subscription_expires_at = None,
      counseling_config = None\<rparr>"

definition example_seeded_db :: Session where
  "example_seeded_db = (empty_db True)\<lparr>banks := [example_new_bank], donors := [example_visitor]\<rparr>"

text \<open>A bank that went through registration, certification, verification and subscription.\<close>

definition example_bank :: "string \<Rightarrow> Bank" where
  "example_bank i =
     \<lparr>bank_id = i, bank_email = i @ ''@example.com'', bank_state = BANK_OPERATIONAL,
      certification_documents = Some [''cert.pdf''], is_verified = True,
      verified_at = Some 1, verified_by = Some ''admin-1'', is_subscribed = True,
      subscription_tier = Some ''basic'', subscription_started_at = Some 2,
      subscription_expires_at = None, counseling_config = None\<rparr>"

definition example_donor :: "DonorState \<Rightarrow> Donor" where
  "example_donor s =
     \<lparr>donor_id = ''D1'', donor_email = ''d1@example.com'', hashed_password = Some ''pw-hash'',
      donor_state = s, donor_bank_id = Some ''B1'', legal_documents = None,
      consent_pending = True, counseling_pending = True, tests_pending = True,
      eligibility_status = ES_PENDING, eligibility_notes = None,
      eligibility_decided_at = None\<rparr>"

definition example_consent :: "string \<Rightarrow> string \<Rightarrow> ConsentStatus \<Rightarrow> DonorConsent" where
  "example_consent i t s =
     \<lparr>consent_id = i, consent_donor_id = ''D1'', consent_template_id = t, consent_status = s,
      signed_at = Some 3,
      consent_verified_at = (if s = CS_VERIFIED then Some 7 else None),
      consent_verified_by = (if s = CS_VERIFIED then Some ''B1'' else None),
      verification_notes = None\<rparr>"

definition bank_ops :: "string \<Rightarrow> operation list" where
  "bank_ops i =
     [RegisterBank (i @ ''@example.com'') i,
      UploadCertification i ''bank'' (Inr ''cert.pdf''),
      AdminVerifyBank ''super_admin'' i ''admin-1'' 1,
      CreateSubscription i ''bank'' ''basic'' 2]"

definition template_ops :: "operation list" where
  "template_ops =
     [UploadConsentTemplate ''B1'' ''bank'' 1 (Inr ''t1.pdf'') ''T1'',
      UploadConsentTemplate ''B1'' ''bank'' 2 (Inr ''t2.pdf'') ''T2'',
      UploadConsentTemplate ''B1'' ''bank'' 3 (Inr ''t3.pdf'') ''T3'',
      UploadConsentTemplate ''B1'' ''bank'' 4 (Inr ''t4.pdf'') ''T4'']"

definition account_ops :: "operation list" where
  "account_ops = bank_ops ''B1'' @ template_ops @
     [CreateLead ''B1'' ''d1@example.com'' ''D1'',
      CreateAccount ''d1@example.com'' ''pw-hash'' None]"

definition counseling_ops :: "operation list" where
  "counseling_ops = account_ops @ [RequestCounseling ''D1'' ''donor'' ''video'' ''S1'']"

definition sign_ops :: "operation list" where
  "sign_ops =
     [SignConsent ''D1'' ''donor'' ''T1'' ''C1'' 3,
      SignConsent ''D1'' ''donor'' ''T2'' ''C2'' 3,
      SignConsent ''D1'' ''donor'' ''T3'' ''C3'' 3,
      SignConsent ''D1'' ''donor'' ''T4'' ''C4'' 3]"

definition verify3_ops :: "operation list" where
  "verify3_ops =
     [VerifyConsent ''B1'' ''bank'' ''C1'' CS_VERIFIED None 7,
      VerifyConsent ''B1'' ''bank'' ''C2'' CS_VERIFIED None 7,
      VerifyConsent ''B1'' ''bank'' ''C3'' CS_VERIFIED None 7]"

text \<open>States reached through the API from the empty database.\<close>

definition account_db :: Session where
  "account_db = run (empty_db False) account_ops"

definition counseling_db :: "bool \<Rightarrow> Session" where
  "counseling_db af = run (empty_db af) counseling_ops"

definition first_signed_db :: "bool \<Rightarrow> Session" where
  "first_signed_db af = run (counseling_db af) [SignConsent ''D1'' ''donor'' ''T1'' ''C1'' 3]"

definition three_verified_db :: Session where
  "three_verified_db = run (counseling_db False) (sign_ops @ verify3_ops)"

definition fourth_verified_db :: Session where
  "fourth_verified_db =
     run three_verified_db [VerifyConsent ''B1'' ''bank'' ''C4'' CS_VERIFIED None 7]"

definition reverified_db :: Session where
  "reverified_db =
     run fourth_verified_db [VerifyConsent ''B1'' ''bank'' ''C4'' CS_VERIFIED None 7]"

definition tests_pending_db :: Session where
  "tests_pending_db =
     run reverified_db [UploadTestReport ''B1'' ''bank'' ''D1'' (Inr ''report.pdf'') ''R1'']"

definition two_banks_db :: Session where
  "two_banks_db = run (first_signed_db False) (bank_ops ''B2'')"

definition verified_bank_db :: Session where
  "verified_bank_db =
     run (empty_db True)
       [RegisterBank ''B1@example.com'' ''B1'',
        UploadCertification ''B1'' ''bank'' (Inr ''cert.pdf''),
        AdminVerifyBank ''super_admin'' ''B1'' ''admin-1'' 1]"

definition registered_bank_db :: Session where
  "registered_bank_db = run (empty_db True) [RegisterBank ''B1@example.com'' ''B1'']"

text \<open>
  A database as the seed script leaves it (rows inserted directly): a donor in
  \<^verbatim>\<open>CONSENT_PENDING\<close> with three verified consents and one signed, on a session
  that autoflushes.
\<close>

definition seeded_pending_db :: Session where
  "seeded_pending_db =
     (empty_db True)
       \<lparr>banks := [example_bank ''B1''],
        donors := [example_donor CONSENT_PENDING],
        donor_consents :=
          [example_consent ''C1'' ''T1'' CS_VERIFIED, example_consent ''C2'' ''T2'' CS_VERIFIED,
           example_consent ''C3'' ''T3'' CS_VERIFIED, example_consent ''C4'' ''T4'' CS_SIGNED]\<rparr>"

definition seeded_verified_db :: Session where
  "seeded_verified_db =
     apply_request seeded_pending_db (VerifyConsent ''B1'' ''bank'' ''C4'' CS_VERIFIED None 7)"

section \<open>Properties of the state machine\<close>

lemma then_on_Inr:
  "then_on r f = Inr x \<longleftrightarrow> fst r = Inr () \<and> f (snd r) = Inr x"
  by (cases r; cases "fst r") (auto simp: then_on_def)

lemma and_then_Inr:
  "and_then r f = Inr x \<longleftrightarrow> (\<exists>y. r = Inr y \<and> f y = Inr x)"
  by (cases r) (auto simp: and_then_def)

lemma transition_donor_state_ok:
  "fst (transition_donor_state db donor ns cb role r) = Inr ()
     \<longleftrightarrow> can_transition_donor_state (donor_state donor) ns"
  by (simp add: transition_donor_state_def Let_def)

lemma transition_donor_state_result:
  "can_transition_donor_state (donor_state donor) ns \<Longrightarrow>
   snd (transition_donor_state db donor ns cb role r) =
     ((commit_donor db (donor\<lparr>donor_state := ns\<rparr>))
        \<lparr>donor_state_history := donor_state_history db @
           [\<lparr>dh_donor_id = donor_id donor, dh_from_state = Some (donor_state donor),
             dh_to_state = ns, dh_changed_by = cb, dh_changed_by_role = role,
             dh_reason = r\<rparr>]\<rparr>,
      donor\<lparr>donor_state := ns\<rparr>)"
  by (simp add: transition_donor_state_def Let_def)

lemma transition_bank_state_ok:
  "fst (transition_bank_state db bank ns cb r) = Inr ()
     \<longleftrightarrow> can_transition_bank_state (bank_state bank) ns"
  by (simp add: transition_bank_state_def Let_def)

lemma transition_bank_state_result:
  "can_transition_bank_state (bank_state bank) ns \<Longrightarrow>
   snd (transition_bank_state db bank ns cb r) =
     ((commit_bank db (bank\<lparr>bank_state := ns\<rparr>))
        \<lparr>bank_state_history := bank_state_history db @
           [\<lparr>bh_bank_id = bank_id bank, bh_from_state = Some (bank_state bank),
             bh_to_state = ns, bh_changed_by = cb, bh_reason = r\<rparr>]\<rparr>,
      bank\<lparr>bank_state := ns\<rparr>)"
  by (simp add: transition_bank_state_def Let_def)

text \<open>The donor graph is the successor relation on positions; the last state has no edge.\<close>

lemma can_transition_donor_rank:
  "can_transition_donor_state s t \<longleftrightarrow> s \<noteq> DONOR_ONBOARDED \<and> donor_rank t = Suc (donor_rank s)"
  by (cases s; cases t)
     (simp_all add: can_transition_donor_state_def get_or_empty_def DONOR_STATE_TRANSITIONS_def)

lemma can_transition_bank_rank:
  "can_transition_bank_state s t \<longleftrightarrow>
     s \<noteq> BANK_UNREGISTERED \<and> s \<noteq> BANK_OPERATIONAL \<and> bank_rank t = Suc (bank_rank s)"
  by (cases s; cases t)
     (simp_all add: can_transition_bank_state_def get_or_empty_def BANK_STATE_TRANSITIONS_def)

section \<open>Tables and lookups\<close>

lemma find_map_replace:
  "find (\<lambda>x. key x = j) (map (\<lambda>x. if key x = key n then n else x) xs) =
     (if j = key n then map_option (\<lambda>_. n) (find (\<lambda>x. key x = j) xs)
      else find (\<lambda>x. key x = j) xs)"
  by (induction xs) auto

lemma find_Some_key:
  "find P xs = Some x \<Longrightarrow> P x \<and> x \<in> set xs"
  by (induction xs) (auto split: if_splits)

lemma find_distinct_key:
  "distinct (map key xs) \<Longrightarrow> x \<in> set xs \<Longrightarrow> find (\<lambda>y. key y = key x) xs = Some x"
  by (induction xs) (auto simp: image_iff)

lemma map_replace_absent:
  "key n \<notin> key ` set xs \<Longrightarrow> map (\<lambda>x. if key x = key n then n else x) xs = xs"
  by (induction xs) auto

lemma map_replace_twice:
  "key m = key n \<Longrightarrow>
   map (\<lambda>x. if key x = key m then m else x) (map (\<lambda>x. if key x = key n then n else x) xs)
     = map (\<lambda>x. if key x = key n then m else x) xs"
  by (induction xs) auto

lemma map_key_replace:
  "key n = k \<Longrightarrow> map key (map (\<lambda>x. if key x = k then n else x) xs) = map key xs"
  by (induction xs) auto

lemma set_map_replace:
  "y \<in> set (map (\<lambda>x. if key x = k then n else x) xs) \<Longrightarrow> y = n \<or> (y \<in> set xs \<and> key y \<noteq> k)"
  by (induction xs) (auto split: if_splits)

lemma donor_chain_snoc:
  "donor_chain s hs cur \<Longrightarrow> dh_from_state h = Some cur
   \<Longrightarrow> can_transition_donor_state cur (dh_to_state h)
   \<Longrightarrow> donor_chain s (hs @ [h]) (dh_to_state h)"
  by (induction s hs cur rule: donor_chain.induct) auto

lemma donor_inv_effect:
  assumes "donor_effect db db'" and "donor_inv db"
  shows "donor_inv db'"
  using assms
proof (cases rule: donor_effect.cases)
  case unchanged
  then show ?thesis using assms(2) by (simp add: donor_inv_def donor_history_of_def)
next
  case (moved d0 d1 h)
  have ids: "map donor_id (donors db') = map donor_id (donors db)"
    using moved(2,5) by (simp add: map_key_replace)
  have c0: "donor_chain BANK_SELECTED (donor_history_of db (donor_id d0)) (donor_state d0)"
    using assms(2) moved(1) by (simp add: donor_inv_def)
  have "donor_chain BANK_SELECTED (donor_history_of db' (donor_id d)) (donor_state d)"
    if "d \<in> set (donors db')" for d
  proof -
    from that moved(5) have "d = d1 \<or> (d \<in> set (donors db) \<and> donor_id d \<noteq> donor_id d0)"
      using set_map_replace [of d donor_id "donor_id d0" d1 "donors db"] by simp
    then show ?thesis
    proof
      assume "d = d1"
      then show ?thesis
        using donor_chain_snoc [OF c0, of h] moved
        by (simp add: donor_history_of_def)
    next
      assume "d \<in> set (donors db) \<and> donor_id d \<noteq> donor_id d0"
      then show ?thesis
        using assms(2) moved by (auto simp: donor_inv_def donor_history_of_def)
    qed
  qed
  moreover have "\<forall>h \<in> set (donor_state_history db'). dh_donor_id h \<in> donor_id ` set (donors db')"
  proof -
    have "set (map donor_id (donors db')) = set (map donor_id (donors db))" using ids by simp
    then have "donor_id ` set (donors db') = donor_id ` set (donors db)" by simp
    then show ?thesis using assms(2) moved by (auto simp: donor_inv_def)
  qed
  ultimately show ?thesis using assms(2) ids by (simp add: donor_inv_def)
next
  case (onboarded d0 d1 h1 h2)
  have ids: "map donor_id (donors db') = map donor_id (donors db)"
    using onboarded(2,5) by (simp add: map_key_replace)
  have c0: "donor_chain BANK_SELECTED (donor_history_of db (donor_id d0)) (donor_state d0)"
    using assms(2) onboarded(1) by (simp add: donor_inv_def)
  have c1: "donor_chain BANK_SELECTED (donor_history_of db (donor_id d0) @ [h1]) ELIGIBILITY_DECISION"
    using donor_chain_snoc [OF c0, of h1] onboarded by (simp add: can_transition_donor_rank)
  have c2: "donor_chain BANK_SELECTED ((donor_history_of db (donor_id d0) @ [h1]) @ [h2]) DONOR_ONBOARDED"
    using donor_chain_snoc [OF c1, of h2] onboarded by (simp add: can_transition_donor_rank)
  have "donor_chain BANK_SELECTED (donor_history_of db' (donor_id d)) (donor_state d)"
    if "d \<in> set (donors db')" for d
  proof -
    from that onboarded(5) have "d = d1 \<or> (d \<in> set (donors db) \<and> donor_id d \<noteq> donor_id d0)"
      using set_map_replace [of d donor_id "donor_id d0" d1 "donors db"] by simp
    then show ?thesis
    proof
      assume "d = d1"
      then show ?thesis
        using c2 onboarded by (simp add: donor_history_of_def)
    next
      assume "d \<in> set (donors db) \<and> donor_id d \<noteq> donor_id d0"
      then show ?thesis
        using assms(2) onboarded by (auto simp: donor_inv_def donor_history_of_def)
    qed
  qed
  moreover have "\<forall>h \<in> set (donor_state_history db'). dh_donor_id h \<in> donor_id ` set (donors db')"
  proof -
    have "set (map donor_id (donors db')) = set (map donor_id (donors db))" using ids by simp
    then have "donor_id ` set (donors db') = donor_id ` set (donors db)" by simp
    then show ?thesis using assms(2) onboarded by (auto simp: donor_inv_def)
  qed
  ultimately show ?thesis using assms(2) ids by (simp add: donor_inv_def)
next
  case (lead dn h)
  have "\<forall>h \<in> set (donor_state_history db). dh_donor_id h \<noteq> donor_id dn"
    using assms(2) lead(1) unfolding donor_inv_def by metis
  then have none: "donor_history_of db (donor_id dn) = []"
    by (simp add: donor_history_of_def filter_empty_conv)
  have "donor_chain BANK_SELECTED (donor_history_of db' (donor_id d)) (donor_state d)"
    if "d \<in> set (donors db')" for d
  proof (cases "d = dn")
    case True
    then show ?thesis using none lead
      by (simp add: donor_history_of_def can_transition_donor_rank)
  next
    case False
    with that lead have "d \<in> set (donors db)" "donor_id d \<noteq> donor_id dn"
      by (auto simp: image_iff)
    then show ?thesis using assms(2) lead by (auto simp: donor_inv_def donor_history_of_def)
  qed
  then show ?thesis using assms(2) lead by (auto simp: donor_inv_def)
qed

lemma get_donor_commit:
  "get_donor (commit_donor db n) j =
     (if j = donor_id n then map_option (\<lambda>_. n) (get_donor db j) else get_donor db j)"
  unfolding get_donor_def commit_donor_def
  using find_map_replace [of donor_id j n "donors db"] by simp

lemma get_bank_commit:
  "get_bank (commit_bank db n) j =
     (if j = bank_id n then map_option (\<lambda>_. n) (get_bank db j) else get_bank db j)"
  unfolding get_bank_def commit_bank_def
  using find_map_replace [of bank_id j n "banks db"] by simp

lemma get_donor_other_tables:
  "get_donor (db\<lparr>donor_state_history := hs\<rparr>) i = get_donor db i"
  "get_donor (db\<lparr>donor_consents := cs\<rparr>) i = get_donor db i"
  "get_donor (db\<lparr>counseling_sessions := ss\<rparr>) i = get_donor db i"
  "get_donor (db\<lparr>test_reports := rs\<rparr>) i = get_donor db i"
  by (simp_all add: get_donor_def)

lemma get_donor_of_found:
  assumes "distinct (map donor_id (donors db))" and "find P (donors db) = Some d"
  shows "get_donor db (donor_id d) = Some d"
  unfolding get_donor_def
  using find_distinct_key [of donor_id "donors db" d] assms find_Some_key [of P "donors db" d]
  by simp

section \<open>What each request does to the donor tables\<close>

lemma transition_bank_keeps_donors:
  "donors (fst (snd (transition_bank_state db bank ns cb r))) = donors db
   \<and> donor_state_history (fst (snd (transition_bank_state db bank ns cb r))) = donor_state_history db"
  by (simp add: transition_bank_state_def commit_bank_def Let_def)

lemma transition_moves:
  assumes "d0 \<in> set (donors db)" and "donor_id donor = donor_id d0"
    and "donor_state donor = donor_state d0" and "donor_state d0 \<noteq> ELIGIBILITY_DECISION"
    and "can_transition_donor_state (donor_state donor) ns"
    and "donors db1 = donors db" and "donor_state_history db1 = donor_state_history db"
  shows "donor_effect db (fst (snd (transition_donor_state db1 donor ns cb role r)))"
  by (rule donor_effect.moved [where ?d0.0 = d0 and ?d1.0 = "donor\<lparr>donor_state := ns\<rparr>"
        and h = "\<lparr>dh_donor_id = donor_id donor, dh_from_state = Some (donor_state donor),
                  dh_to_state = ns, dh_changed_by = cb, dh_changed_by_role = role,
                  dh_reason = r\<rparr>"])
     (use assms in \<open>simp_all add: transition_donor_state_result commit_donor_def\<close>)

lemma bank_handlers_keep_donors:
  "register_bank db e n = Inr db' \<Longrightarrow> donor_effect db db'"
  "upload_certification db b up = Inr db' \<Longrightarrow> donor_effect db db'"
  "update_counseling_config db b ms = Inr db' \<Longrightarrow> donor_effect db db'"
  "create_subscription db b tier now = Inr db' \<Longrightarrow> donor_effect db db'"
  "upload_consent_template db b ord up n = Inr db' \<Longrightarrow> donor_effect db db'"
  "update_consent_template db b tid upo ordo act = Inr db' \<Longrightarrow> donor_effect db db'"
  "verify_bank db role bid vb now = Inr db' \<Longrightarrow> donor_effect db db'"
  "update_bank_subscription db role bid tier st ex = Inr db' \<Longrightarrow> donor_effect db db'"
proof -
  show "register_bank db e n = Inr db' \<Longrightarrow> donor_effect db db'"
    by (rule donor_effect.unchanged)
       (auto simp: register_bank_def Let_def split: option.splits if_splits)
  show "upload_certification db b up = Inr db' \<Longrightarrow> donor_effect db db'"
    by (rule donor_effect.unchanged)
       (auto simp: upload_certification_def Let_def then_on_Inr split_beta commit_bank_def
          transition_bank_keeps_donors split: sum.splits if_splits)
  show "update_counseling_config db b ms = Inr db' \<Longrightarrow> donor_effect db db'"
    by (rule donor_effect.unchanged)
       (auto simp: update_counseling_config_def commit_bank_def)
  show "create_subscription db b tier now = Inr db' \<Longrightarrow> donor_effect db db'"
    by (rule donor_effect.unchanged)
       (auto simp: create_subscription_def Let_def then_on_Inr split_beta
          transition_bank_keeps_donors split: if_splits)
  show "upload_consent_template db b ord up n = Inr db' \<Longrightarrow> donor_effect db db'"
    by (rule donor_effect.unchanged)
       (auto simp: upload_consent_template_def Let_def split: sum.splits if_splits)
  show "update_consent_template db b tid upo ordo act = Inr db' \<Longrightarrow> donor_effect db db'"
    by (rule donor_effect.unchanged)
       (auto simp: update_consent_template_def Let_def split: option.splits sum.splits if_splits)
  show "verify_bank db role bid vb now = Inr db' \<Longrightarrow> donor_effect db db'"
    by (rule donor_effect.unchanged)
       (auto simp: verify_bank_def Let_def and_then_Inr commit_bank_def
          split: option.splits if_splits)
  show "update_bank_subscription db role bid tier st ex = Inr db' \<Longrightarrow> donor_effect db db'"
    by (rule donor_effect.unchanged)
       (auto simp: update_bank_subscription_def Let_def and_then_Inr commit_bank_def
          split: option.splits if_splits)
qed

lemma create_lead_effect:
  assumes "create_lead db bid email new_id = Inr db'"
  shows "donor_effect db db'"
proof -
  have ok: "can_transition_donor_state BANK_SELECTED LEAD_CREATED"
    by (simp add: can_transition_donor_rank)
  from assms have fresh: "new_id \<notin> donor_id ` set (donors db)"
    by (auto simp: create_lead_def split: option.splits if_splits)
  have same: "map (\<lambda>d. if donor_id d = new_id then n else d) (donors db) = donors db"
    if "donor_id n = new_id" for n
    using map_replace_absent [of donor_id n "donors db"] fresh that by simp
  from assms fresh ok obtain dn h where "donors db' = donors db @ [dn]"
    and "donor_state_history db' = donor_state_history db @ [h]"
    and "donor_id dn = new_id" and "donor_state dn = LEAD_CREATED"
    and "dh_donor_id h = new_id" and "dh_from_state h = Some BANK_SELECTED"
    and "dh_to_state h = LEAD_CREATED"
    by (auto simp: create_lead_def Let_def then_on_Inr split_beta transition_donor_state_ok
          transition_donor_state_result commit_donor_def same
          split: option.splits if_splits)
  then show ?thesis
    using fresh by (intro donor_effect.lead [where dn = dn and h = h]) simp_all
qed

lemma create_account_effect:
  assumes "create_account db email pw docs = Inr db'"
  shows "donor_effect db db'"
proof -
  from assms obtain donor where f: "find (\<lambda>d. donor_email d = email) (donors db) = Some donor"
    and st: "donor_state donor = LEAD_CREATED"
    by (auto simp: create_account_def split: option.splits if_splits)
  from f have mem: "donor \<in> set (donors db)" by (auto dest: find_Some_key)
  have ok: "can_transition_donor_state LEAD_CREATED ACCOUNT_CREATED"
    by (simp add: can_transition_donor_rank)
  define d2 where "d2 = (case docs of None \<Rightarrow> donor\<lparr>hashed_password := Some pw\<rparr>
     | Some ds \<Rightarrow> if ds = [] then donor\<lparr>hashed_password := Some pw\<rparr>
                  else donor\<lparr>hashed_password := Some pw, legal_documents := Some ds\<rparr>)"
  have d2: "donor_id d2 = donor_id donor" "donor_state d2 = donor_state donor"
    by (auto simp: d2_def split: option.splits)
  have "db' = fst (snd (transition_donor_state db d2 ACCOUNT_CREATED (donor_id d2) ''donor''
                 (Some ''Account created with credentials'')))"
    using assms f st
    by (auto simp: create_account_def Let_def then_on_Inr split_beta d2_def
          split: option.splits if_splits)
  then show ?thesis
    using transition_moves [OF mem d2(1) d2(2), of ACCOUNT_CREATED db] st ok d2 by simp
qed

lemma sign_consent_effect:
  assumes "sign_consent db cd tid new_id now = Inr db'" and "cd \<in> set (donors db)"
  shows "donor_effect db db'"
proof (cases "donors db' = donors db \<and> donor_state_history db' = donor_state_history db")
  case True
  then show ?thesis by (simp add: donor_effect.unchanged)
next
  case False
  define db1 where "db1 = db\<lparr>donor_consents := donor_consents db @
      [\<lparr>consent_id = new_id, consent_donor_id = donor_id cd, consent_template_id = tid,
        consent_status = CS_SIGNED, signed_at = Some now, consent_verified_at = None,
        consent_verified_by = None, verification_notes = None\<rparr>]\<rparr>"
  from assms(1) False have st: "donor_state cd = COUNSELING_REQUESTED"
    and r: "db' = fst (snd (transition_donor_state db1 cd CONSENT_PENDING (donor_id cd)
                ''donor'' (Some ''Started signing consent forms'')))"
    by (auto simp: sign_consent_def Let_def then_on_Inr split_beta db1_def
          split: option.splits if_splits)
  have ok: "can_transition_donor_state COUNSELING_REQUESTED CONSENT_PENDING"
    by (simp add: can_transition_donor_rank)
  show ?thesis
    unfolding r
    by (rule transition_moves [OF assms(2)]) (simp_all add: st ok db1_def)
qed

lemma request_counseling_effect:
  assumes "request_counseling db cd method new_id = Inr db'" and "cd \<in> set (donors db)"
  shows "donor_effect db db'"
proof -
  from assms(1) obtain db1 where st: "donor_state cd = ACCOUNT_CREATED"
    and r: "db' = fst (snd (transition_donor_state db1 cd COUNSELING_REQUESTED (donor_id cd)
                ''donor'' (Some ''Counseling requested'')))"
    and fr: "donors db1 = donors db" "donor_state_history db1 = donor_state_history db"
    by (auto simp: request_counseling_def Let_def then_on_Inr split_beta
          split: option.splits if_splits)
  have ok: "can_transition_donor_state ACCOUNT_CREATED COUNSELING_REQUESTED"
    by (simp add: can_transition_donor_rank)
  show ?thesis
    unfolding r
    by (rule transition_moves [OF assms(2)]) (simp_all add: st ok fr)
qed

lemma verify_consent_effect:
  assumes "verify_consent db cb cid st notes now = Inr db'"
  shows "donor_effect db db'"
proof (cases "donors db' = donors db \<and> donor_state_history db' = donor_state_history db")
  case True
  then show ?thesis by (simp add: donor_effect.unchanged)
next
  case False
  from assms False obtain donor db1 where mem: "donor \<in> set (donors db)"
    and st: "donor_state donor = CONSENT_PENDING"
    and r: "db' = fst (snd (transition_donor_state db1 donor CONSENT_VERIFIED (bank_id cb)
                ''bank'' (Some ''All consents verified by bank'')))"
    and fr: "donors db1 = donors db" "donor_state_history db1 = donor_state_history db"
    by (auto simp: verify_consent_def Let_def then_on_Inr split_beta
          dest!: find_Some_key split: option.splits if_splits)
  have ok: "can_transition_donor_state CONSENT_PENDING CONSENT_VERIFIED"
    by (simp add: can_transition_donor_rank)
  show ?thesis
    unfolding r
    by (rule transition_moves [OF mem]) (simp_all add: st ok fr)
qed

lemma upload_test_report_effect:
  assumes "upload_test_report db cb did up new_id = Inr db'"
  shows "donor_effect db db'"
proof (cases "donors db' = donors db \<and> donor_state_history db' = donor_state_history db")
  case True
  then show ?thesis by (simp add: donor_effect.unchanged)
next
  case False
  from assms False obtain donor db1 where mem: "donor \<in> set (donors db)"
    and st: "donor_state donor = CONSENT_VERIFIED"
    and r: "db' = fst (snd (transition_donor_state db1 donor TESTS_PENDING (bank_id cb)
                ''bank'' (Some ''Test report uploaded by bank'')))"
    and fr: "donors db1 = donors db" "donor_state_history db1 = donor_state_history db"
    by (auto simp: upload_test_report_def Let_def then_on_Inr split_beta
          dest!: find_Some_key split: option.splits if_splits sum.splits)
  have ok: "can_transition_donor_state CONSENT_VERIFIED TESTS_PENDING"
    by (simp add: can_transition_donor_rank)
  show ?thesis
    unfolding r
    by (rule transition_moves [OF mem]) (simp_all add: st ok fr)
qed

lemma two_transitions_onboard:
  assumes "d0 \<in> set (donors db)" and "donor_id d1 = donor_id d0"
    and "donor_state d0 = TESTS_PENDING" and "donor_state d1 = TESTS_PENDING"
  shows "donor_effect db
           (fst (snd (transition_donor_state
                        (fst (snd (transition_donor_state db d1 ELIGIBILITY_DECISION cb role r1)))
                        (snd (snd (transition_donor_state db d1 ELIGIBILITY_DECISION cb role r1)))
                        DONOR_ONBOARDED cb2 role2 r2)))"
proof -
  have ok1: "can_transition_donor_state (donor_state d1) ELIGIBILITY_DECISION"
    and ok2: "can_transition_donor_state ELIGIBILITY_DECISION DONOR_ONBOARDED"
    using assms(4) by (simp_all add: can_transition_donor_rank)
  show ?thesis
    by (rule donor_effect.onboarded [where ?d0.0 = d0
          and ?d1.0 = "d1\<lparr>donor_state := DONOR_ONBOARDED\<rparr>"
          and ?h1.0 = "\<lparr>dh_donor_id = donor_id d1, dh_from_state = Some (donor_state d1),
             dh_to_state = ELIGIBILITY_DECISION, dh_changed_by = cb,
             dh_changed_by_role = role, dh_reason = r1\<rparr>"
          and ?h2.0 = "\<lparr>dh_donor_id = donor_id d1, dh_from_state = Some ELIGIBILITY_DECISION,
             dh_to_state = DONOR_ONBOARDED, dh_changed_by = cb2,
             dh_changed_by_role = role2, dh_reason = r2\<rparr>"])
       (use assms ok1 ok2 in \<open>simp_all add: transition_donor_state_result commit_donor_def
          map_replace_twice [of donor_id] comp_def\<close>)
qed

lemma make_eligibility_decision_effect:
  assumes "make_eligibility_decision db cb did st notes now = Inr db'"
  shows "donor_effect db db'"
proof -
  from assms obtain donor where f: "find (\<lambda>d. donor_id d = did
        \<and> donor_bank_id d = Some (bank_id cb)) (donors db) = Some donor"
    and s0: "donor_state donor = TESTS_PENDING"
    by (auto simp: make_eligibility_decision_def split: option.splits if_splits)
  from f have mem: "donor \<in> set (donors db)" by (auto dest: find_Some_key)
  define d1 where "d1 = donor\<lparr>eligibility_status := st, eligibility_notes := notes,
      eligibility_decided_at := Some now\<rparr>"
  have d1: "donor_id d1 = donor_id donor" "donor_state d1 = TESTS_PENDING"
    using s0 by (simp_all add: d1_def)
  have ok1: "can_transition_donor_state TESTS_PENDING ELIGIBILITY_DECISION"
    by (simp add: can_transition_donor_rank)
  let ?t1 = "transition_donor_state db d1 ELIGIBILITY_DECISION (bank_id cb) ''bank''
               (Some (''Eligibility decision: '' @ EligibilityStatus_value st))"
  show ?thesis
  proof (cases "st = ES_APPROVED")
    case False
    have "db' = fst (snd ?t1)"
      using assms f s0 False
      by (auto simp: make_eligibility_decision_def Let_def then_on_Inr split_beta d1_def)
    then show ?thesis
      using transition_moves [OF mem, of d1 ELIGIBILITY_DECISION db] s0 ok1
      by (simp add: d1_def)
  next
    case True
    let ?t2 = "transition_donor_state (fst (snd ?t1)) (snd (snd ?t1)) DONOR_ONBOARDED
                 (bank_id cb) ''bank'' (Some ''Donor approved and onboarded'')"
    have r: "db' = fst (snd ?t2)"
      using assms f s0 True
      by (auto simp: make_eligibility_decision_def Let_def then_on_Inr split_beta d1_def)
    show ?thesis
      unfolding r by (rule two_transitions_onboard [OF mem d1(1) s0 d1(2)])
  qed
qed

lemma current_donor_of_mem:
  "current_donor_of db sub type = Inr d \<Longrightarrow> d \<in> set (donors db)"
  by (auto simp: current_donor_of_def and_then_Inr get_current_user_def
        dest!: find_Some_key split: if_splits option.splits user.splits
        elim!: get_current_donor.elims)

lemma donor_effect_request:
  assumes "request db op = Inr db'"
  shows "donor_effect db db'"
  using assms
  by (cases op)
     (auto simp: and_then_Inr bank_handlers_keep_donors create_lead_effect create_account_effect
        verify_consent_effect upload_test_report_effect make_eligibility_decision_effect
        intro: sign_consent_effect request_counseling_effect dest: current_donor_of_mem)

lemma donor_inv_empty: "donor_inv (empty_db af)"
  by (simp add: donor_inv_def empty_db_def)

lemma donor_inv_apply_request: "donor_inv db \<Longrightarrow> donor_inv (apply_request db op)"
  by (auto simp: apply_request_def split: sum.splits
        intro: donor_inv_effect donor_effect_request)

lemma donor_inv_run: "donor_inv db \<Longrightarrow> donor_inv (run db ops)"
  by (induction ops arbitrary: db) (simp_all add: donor_inv_apply_request)

lemma donor_inv_reachable: "donor_inv (run (empty_db af) ops)"
  by (simp add: donor_inv_run donor_inv_empty)

section \<open>Consequences of the donor invariant\<close>

lemma donor_chain_shape:
  "donor_chain s hs cur \<Longrightarrow>
     donor_entries_linked hs
     \<and> (hs \<noteq> [] \<longrightarrow> dh_from_state (hd hs) = Some s \<and> dh_to_state (last hs) = cur)
     \<and> follows_donor_edges s (map dh_to_state hs)
     \<and> cur = last (s # map dh_to_state hs)"
proof (induction s hs cur rule: donor_chain.induct)
  case (1 s cur)
  then show ?case by simp
next
  case (2 s h hs cur)
  then show ?case by (cases hs) auto
qed

lemma follows_donor_edges_increasing:
  "follows_donor_edges s ts \<Longrightarrow> (\<forall>t \<in> set ts. donor_rank s < donor_rank t) \<and> distinct ts"
proof (induction ts arbitrary: s)
  case Nil
  then show ?case by simp
next
  case (Cons t ts)
  then have step: "donor_rank t = Suc (donor_rank s)" and rest: "follows_donor_edges t ts"
    by (simp_all add: can_transition_donor_rank)
  from Cons.IH [OF rest] have "\<forall>u \<in> set ts. donor_rank t < donor_rank u" and "distinct ts"
    by simp_all
  then show ?case using step by fastforce
qed

lemma history_grows:
  "donor_state_history db' = donor_state_history db @ rows \<Longrightarrow> donor_history_of db i \<noteq> []
   \<Longrightarrow> donor_history_of db' i \<noteq> []"
  by (simp add: donor_history_of_def)

lemma history_nonempty_same_ids:
  assumes "set (map donor_id (donors db')) = set (map donor_id (donors db))"
    and "donor_state_history db' = donor_state_history db @ rows"
    and "\<forall>d \<in> set (donors db). donor_history_of db (donor_id d) \<noteq> []"
  shows "\<forall>d \<in> set (donors db'). donor_history_of db' (donor_id d) \<noteq> []"
proof
  fix d assume "d \<in> set (donors db')"
  then have "donor_id d \<in> set (map donor_id (donors db))" using assms(1) by auto
  then obtain e where "e \<in> set (donors db)" and "donor_id e = donor_id d" by auto
  then have "donor_history_of db (donor_id d) \<noteq> []" using assms(3) by metis
  then show "donor_history_of db' (donor_id d) \<noteq> []" using assms(2) by (rule history_grows [rotated])
qed

lemma history_nonempty_effect:
  assumes "donor_effect db db'"
    and "\<forall>d \<in> set (donors db). donor_history_of db (donor_id d) \<noteq> []"
  shows "\<forall>d \<in> set (donors db'). donor_history_of db' (donor_id d) \<noteq> []"
  using assms(1)
proof (cases rule: donor_effect.cases)
  case unchanged
  then show ?thesis using assms(2) by (simp add: donor_history_of_def)
next
  case (moved d0 d1 h)
  have "map donor_id (donors db') = map donor_id (donors db)"
    using moved(2,5) by (simp add: map_key_replace)
  then show ?thesis
    using history_nonempty_same_ids [OF _ moved(6) assms(2)] by simp
next
  case (onboarded d0 d1 h1 h2)
  have "map donor_id (donors db') = map donor_id (donors db)"
    using onboarded(2,5) by (simp add: map_key_replace)
  then show ?thesis
    using history_nonempty_same_ids [OF _ onboarded(6) assms(2)] by simp
next
  case (lead dn h)
  show ?thesis
  proof
    fix d assume "d \<in> set (donors db')"
    then consider "d = dn" | "d \<in> set (donors db)" using lead(3) by auto
    then show "donor_history_of db' (donor_id d) \<noteq> []"
    proof cases
      case 1
      then show ?thesis using lead(4,5) by (simp add: donor_history_of_def)
    next
      case 2
      then show ?thesis using assms(2) lead(4) history_grows by blast
    qed
  qed
qed

lemma find_append_first:
  "find P (xs @ ys) = (case find P xs of None \<Rightarrow> find P ys | Some x \<Rightarrow> Some x)"
  by (induction xs) auto

lemma history_nonempty_run:
  "\<forall>d \<in> set (donors db). donor_history_of db (donor_id d) \<noteq> [] \<Longrightarrow>
   \<forall>d \<in> set (donors (run db ops)). donor_history_of (run db ops) (donor_id d) \<noteq> []"
proof (induction ops arbitrary: db)
  case Nil
  then show ?case by simp
next
  case (Cons op ops)
  have "\<forall>d \<in> set (donors (apply_request db op)).
          donor_history_of (apply_request db op) (donor_id d) \<noteq> []"
  proof (cases "request db op")
    case (Inl e)
    then show ?thesis using Cons.prems by (simp add: apply_request_def)
  next
    case (Inr db')
    then show ?thesis
      using history_nonempty_effect [OF donor_effect_request [OF Inr] Cons.prems]
      by (simp add: apply_request_def)
  qed
  then show ?case using Cons.IH by simp
qed

lemma stays_in_decision_effect:
  assumes "donor_effect db db'" and "distinct (map donor_id (donors db))"
    and "get_donor db i = Some d" and "donor_state d = ELIGIBILITY_DECISION"
  shows "get_donor db' i = Some d"
  using assms(1)
proof (cases rule: donor_effect.cases)
  case unchanged
  then show ?thesis using assms(3) by (simp add: get_donor_def)
next
  case (moved d0 d1 h)
  have "donor_id d0 \<noteq> i"
  proof
    assume "donor_id d0 = i"
    then have "get_donor db i = Some d0"
      using find_distinct_key [OF assms(2) moved(1)] by (simp add: get_donor_def)
    then show False using assms(3,4) moved(3) by simp
  qed
  then show ?thesis
    using assms(3) moved(2,5) find_map_replace [of donor_id i d1 "donors db"]
    by (simp add: get_donor_def)
next
  case (onboarded d0 d1 h1 h2)
  have "donor_id d0 \<noteq> i"
  proof
    assume "donor_id d0 = i"
    then have "get_donor db i = Some d0"
      using find_distinct_key [OF assms(2) onboarded(1)] by (simp add: get_donor_def)
    then show False using assms(3,4) onboarded(3) by simp
  qed
  then show ?thesis
    using assms(3) onboarded(2,5) find_map_replace [of donor_id i d1 "donors db"]
    by (simp add: get_donor_def)
next
  case (lead dn h)
  then show ?thesis using assms(3) by (simp add: get_donor_def find_append_first)
qed

lemma stays_in_decision_run:
  "donor_inv db \<Longrightarrow> get_donor db i = Some d \<Longrightarrow> donor_state d = ELIGIBILITY_DECISION
   \<Longrightarrow> get_donor (run db ops) i = Some d"
proof (induction ops arbitrary: db)
  case Nil
  then show ?case by simp
next
  case (Cons op ops)
  have "get_donor (apply_request db op) i = Some d"
  proof (cases "request db op")
    case (Inl e)
    then show ?thesis using Cons.prems by (simp add: apply_request_def)
  next
    case (Inr db')
    then show ?thesis
      using stays_in_decision_effect [OF donor_effect_request [OF Inr] _ Cons.prems(2,3)]
        Cons.prems(1)
      by (simp add: apply_request_def donor_inv_def)
  qed
  then show ?case using Cons.IH Cons.prems donor_inv_apply_request by simp
qed

section \<open>What each request does to the bank table\<close>

lemma transition_donor_keeps_banks:
  "banks (fst (snd (transition_donor_state db donor ns cb role r))) = banks db"
  by (simp add: transition_donor_state_def commit_donor_def Let_def)

lemma donor_handlers_keep_banks:
  "create_lead db bid email n = Inr db' \<Longrightarrow> bank_effect db db'"
  "create_account db email pw docs = Inr db' \<Longrightarrow> bank_effect db db'"
  "sign_consent db cd tid n now = Inr db' \<Longrightarrow> bank_effect db db'"
  "request_counseling db cd m n = Inr db' \<Longrightarrow> bank_effect db db'"
  "verify_consent db b cid st notes now = Inr db' \<Longrightarrow> bank_effect db db'"
  "upload_test_report db b did up n = Inr db' \<Longrightarrow> bank_effect db db'"
  "make_eligibility_decision db b did est notes now = Inr db' \<Longrightarrow> bank_effect db db'"
  "upload_consent_template db b ord up n = Inr db' \<Longrightarrow> bank_effect db db'"
  "update_consent_template db b tid upo ordo act = Inr db' \<Longrightarrow> bank_effect db db'"
proof -
  show "create_lead db bid email n = Inr db' \<Longrightarrow> bank_effect db db'"
    by (rule bank_effect.same)
       (auto simp: create_lead_def Let_def then_on_Inr split_beta transition_donor_keeps_banks
          split: option.splits if_splits)
  show "create_account db email pw docs = Inr db' \<Longrightarrow> bank_effect db db'"
    by (rule bank_effect.same)
       (auto simp: create_account_def Let_def then_on_Inr split_beta transition_donor_keeps_banks
          split: option.splits if_splits)
  show "sign_consent db cd tid n now = Inr db' \<Longrightarrow> bank_effect db db'"
    by (rule bank_effect.same)
       (auto simp: sign_consent_def Let_def then_on_Inr split_beta transition_donor_keeps_banks
          split: option.splits if_splits)
  show "request_counseling db cd m n = Inr db' \<Longrightarrow> bank_effect db db'"
    by (rule bank_effect.same)
       (auto simp: request_counseling_def Let_def then_on_Inr split_beta
          transition_donor_keeps_banks split: option.splits if_splits)
  show "verify_consent db b cid st notes now = Inr db' \<Longrightarrow> bank_effect db db'"
    by (rule bank_effect.same)
       (auto simp: verify_consent_def Let_def then_on_Inr split_beta transition_donor_keeps_banks
          split: option.splits if_splits)
  show "upload_test_report db b did up n = Inr db' \<Longrightarrow> bank_effect db db'"
    by (rule bank_effect.same)
       (auto simp: upload_test_report_def Let_def then_on_Inr split_beta
          transition_donor_keeps_banks split: option.splits if_splits sum.splits)
  show "make_eligibility_decision db b did est notes now = Inr db' \<Longrightarrow> bank_effect db db'"
    by (rule bank_effect.same)
       (auto simp: make_eligibility_decision_def Let_def then_on_Inr split_beta
          transition_donor_keeps_banks split: option.splits if_splits)
  show "upload_consent_template db b ord up n = Inr db' \<Longrightarrow> bank_effect db db'"
    by (rule bank_effect.same)
       (auto simp: upload_consent_template_def Let_def split: sum.splits if_splits)
  show "update_consent_template db b tid upo ordo act = Inr db' \<Longrightarrow> bank_effect db db'"
    by (rule bank_effect.same)
       (auto simp: update_consent_template_def Let_def split: option.splits sum.splits if_splits)
qed

lemma register_bank_effect:
  "register_bank db e n = Inr db' \<Longrightarrow> bank_effect db db'"
  by (auto simp: register_bank_def Let_def split: option.splits if_splits
        intro!: bank_effect.added)

lemma commit_bank_effect:
  "b0 \<in> set (banks db) \<Longrightarrow> bank_id b1 = bank_id b0
   \<Longrightarrow> bank_rank (bank_state b0) \<le> bank_rank (bank_state b1)
   \<Longrightarrow> banks db' = banks (commit_bank db b1) \<Longrightarrow> bank_effect db db'"
  by (rule bank_effect.changed [where ?b0.0 = b0 and ?b1.0 = b1]) (simp_all add: commit_bank_def)

lemma transition_bank_banks:
  "can_transition_bank_state (bank_state bank) ns \<Longrightarrow>
   banks (fst (snd (transition_bank_state db bank ns cb r)))
     = banks (commit_bank db (bank\<lparr>bank_state := ns\<rparr>))
   \<and> snd (snd (transition_bank_state db bank ns cb r)) = bank\<lparr>bank_state := ns\<rparr>"
  by (simp add: transition_bank_state_result commit_bank_def)

lemma commit_bank_twice:
  "bank_id m = bank_id n \<Longrightarrow> banks db1 = banks (commit_bank db n)
   \<Longrightarrow> banks (commit_bank db1 m) = banks (commit_bank db m)"
  using map_replace_twice [of bank_id m n "banks db"] by (simp add: commit_bank_def)

lemma upload_certification_effect:
  assumes "upload_certification db b up = Inr db'" and "b \<in> set (banks db)"
  shows "bank_effect db db'"
proof -
  from assms(1) obtain url where up: "up = Inr url"
    by (auto simp: upload_certification_def split: sum.splits)
  define b1 where "b1 = b\<lparr>certification_documents :=
      Some ((case certification_documents b of None \<Rightarrow> [] | Some ds \<Rightarrow> ds) @ [url])\<rparr>"
  show ?thesis
  proof (cases "bank_state b = BANK_ACCOUNT_CREATED")
    case True
    then have ok: "can_transition_bank_state (bank_state b1) BANK_VERIFICATION_PENDING"
      by (simp add: b1_def can_transition_bank_rank)
    have "db' = fst (snd (transition_bank_state db b1 BANK_VERIFICATION_PENDING (bank_id b1)
                (Some ''Certification documents uploaded'')))"
      using assms(1) up True
      by (auto simp: upload_certification_def Let_def then_on_Inr split_beta b1_def)
    then have "banks db' = banks (commit_bank db (b1\<lparr>bank_state := BANK_VERIFICATION_PENDING\<rparr>))"
      using transition_bank_banks [OF ok] by simp
    then show ?thesis
      using True by (intro commit_bank_effect [OF assms(2)]) (simp_all add: b1_def)
  next
    case False
    then have "db' = commit_bank db b1"
      using assms(1) up by (auto simp: upload_certification_def Let_def b1_def)
    then show ?thesis
      by (intro commit_bank_effect [OF assms(2), of b1]) (simp_all add: b1_def)
  qed
qed

lemma update_counseling_config_effect:
  assumes "update_counseling_config db b ms = Inr db'" and "b \<in> set (banks db)"
  shows "bank_effect db db'"
  using assms(1)
  by (intro commit_bank_effect [OF assms(2),
        of "b\<lparr>counseling_config := Some \<lparr>methods = ms\<rparr>\<rparr>"])
     (auto simp: update_counseling_config_def)

lemma create_subscription_effect:
  assumes "create_subscription db b tier now = Inr db'" and "b \<in> set (banks db)"
  shows "bank_effect db db'"
proof -
  from assms(1) have st: "bank_state b = BANK_VERIFIED"
    by (auto simp: create_subscription_def split: if_splits)
  define b1 where "b1 = b\<lparr>subscription_tier := Some tier, is_subscribed := True,
      subscription_started_at := Some now\<rparr>"
  have ok1: "can_transition_bank_state (bank_state b1) BANK_SUBSCRIPTION_PENDING"
    using st by (simp add: b1_def can_transition_bank_rank)
  let ?t1 = "transition_bank_state db b1 BANK_SUBSCRIPTION_PENDING (bank_id b1)
               (Some ''Subscription initiated'')"
  let ?b2 = "b1\<lparr>bank_state := BANK_SUBSCRIPTION_PENDING\<rparr>"
  have r1: "banks (fst (snd ?t1)) = banks (commit_bank db ?b2)" "snd (snd ?t1) = ?b2"
    using transition_bank_banks [OF ok1] by simp_all
  let ?t2 = "transition_bank_state (fst (snd ?t1)) ?b2 BANK_SUBSCRIBED_ONBOARDED (bank_id ?b2)
               (Some ''Subscription completed'')"
  let ?b3 = "?b2\<lparr>bank_state := BANK_SUBSCRIBED_ONBOARDED\<rparr>"
  have ok2: "can_transition_bank_state (bank_state ?b2) BANK_SUBSCRIBED_ONBOARDED"
    by (simp add: can_transition_bank_rank)
  have r2: "banks (fst (snd ?t2)) = banks (commit_bank db ?b3)" "snd (snd ?t2) = ?b3"
    using transition_bank_banks [OF ok2, of "fst (snd ?t1)"]
      commit_bank_twice [of ?b3 ?b2 "fst (snd ?t1)" db] r1 by simp_all
  let ?t3 = "transition_bank_state (fst (snd ?t2)) ?b3 BANK_OPERATIONAL (bank_id ?b3)
               (Some ''Bank is now operational'')"
  let ?b4 = "?b3\<lparr>bank_state := BANK_OPERATIONAL\<rparr>"
  have ok3: "can_transition_bank_state (bank_state ?b3) BANK_OPERATIONAL"
    by (simp add: can_transition_bank_rank)
  have r3: "banks (fst (snd ?t3)) = banks (commit_bank db ?b4)"
    using transition_bank_banks [OF ok3, of "fst (snd ?t2)"]
      commit_bank_twice [of ?b4 ?b3 "fst (snd ?t2)" db] r2 by simp
  have "db' = fst (snd ?t3)"
    using assms(1) st r1(2) r2(2)
    by (auto simp: create_subscription_def Let_def then_on_Inr split_beta b1_def [symmetric])
  then show ?thesis
    using r3 st by (intro commit_bank_effect [OF assms(2), of ?b4]) (simp_all add: b1_def)
qed

lemma verify_bank_effect:
  assumes "verify_bank db role bid vb now = Inr db'"
  shows "bank_effect db db'"
proof -
  from assms obtain bank where f: "find (\<lambda>b. bank_id b = bid) (banks db) = Some bank"
    by (auto simp: verify_bank_def and_then_Inr split: option.splits)
  then have mem: "bank \<in> set (banks db)" by (auto dest: find_Some_key)
  from assms f obtain b2 where "db' = commit_bank db b2" and "bank_id b2 = bank_id bank"
    and "bank_rank (bank_state bank) \<le> bank_rank (bank_state b2)"
    by (auto simp: verify_bank_def and_then_Inr Let_def split: if_splits)
  then show ?thesis by (intro commit_bank_effect [OF mem, of b2]) simp_all
qed

lemma update_bank_subscription_effect:
  assumes "update_bank_subscription db role bid tier st ex = Inr db'"
  shows "bank_effect db db'"
proof -
  from assms obtain bank where f: "find (\<lambda>b. bank_id b = bid) (banks db) = Some bank"
    by (auto simp: update_bank_subscription_def and_then_Inr split: option.splits)
  then have mem: "bank \<in> set (banks db)" by (auto dest: find_Some_key)
  from assms f obtain b2 where "db' = commit_bank db b2" and "bank_id b2 = bank_id bank"
    and "bank_rank (bank_state bank) \<le> bank_rank (bank_state b2)"
    by (auto simp: update_bank_subscription_def and_then_Inr Let_def split: if_splits)
  then show ?thesis by (intro commit_bank_effect [OF mem, of b2]) simp_all
qed

lemma bank_of_mem:
  "current_bank_of db sub type = Inr b \<Longrightarrow> b \<in> set (banks db)"
  "verified_bank_of db sub type = Inr b \<Longrightarrow> b \<in> set (banks db)"
  "subscribed_bank_of db sub type = Inr b \<Longrightarrow> b \<in> set (banks db)"
proof -
  show c: "current_bank_of db sub type = Inr b \<Longrightarrow> b \<in> set (banks db)" for b
    by (auto simp: current_bank_of_def and_then_Inr get_current_user_def
          dest!: find_Some_key split: if_splits option.splits
          elim!: get_current_bank.elims)
  show v: "verified_bank_of db sub type = Inr b \<Longrightarrow> b \<in> set (banks db)" for b
    using c by (auto simp: verified_bank_of_def and_then_Inr get_verified_bank_def
          split: if_splits)
  show "subscribed_bank_of db sub type = Inr b \<Longrightarrow> b \<in> set (banks db)"
    using v by (auto simp: subscribed_bank_of_def and_then_Inr get_subscribed_bank_def
          split: if_splits)
qed

lemma bank_effect_request:
  assumes "request db op = Inr db'"
  shows "bank_effect db db'"
  using assms
  by (cases op)
     (auto simp: and_then_Inr donor_handlers_keep_banks register_bank_effect verify_bank_effect
        update_bank_subscription_effect
        intro: upload_certification_effect update_counseling_config_effect
          create_subscription_effect dest: bank_of_mem)

lemma bank_effect_distinct:
  assumes "bank_effect db db'" and "distinct (map bank_id (banks db))"
  shows "distinct (map bank_id (banks db'))"
  using assms(1)
proof (cases rule: bank_effect.cases)
  case same
  then show ?thesis using assms(2) by simp
next
  case (changed b0 b1)
  have "map bank_id (banks db') = map bank_id (banks db)"
    unfolding changed(4) using changed(2) by (rule map_key_replace)
  then show ?thesis using assms(2) by simp
next
  case (added bn)
  then show ?thesis using assms(2) by simp
qed

lemma bank_effect_forward:
  assumes "bank_effect db db'" and "distinct (map bank_id (banks db))" and "b \<in> set (banks db)"
  shows "\<exists>b' \<in> set (banks db'). bank_id b' = bank_id b
           \<and> bank_rank (bank_state b) \<le> bank_rank (bank_state b')"
  using assms(1)
proof (cases rule: bank_effect.cases)
  case same
  then show ?thesis using assms(3) by auto
next
  case (changed b0 b1)
  show ?thesis
  proof (cases "bank_id b = bank_id b0")
    case True
    then have "b = b0"
      using assms(2,3) changed(1) by (metis distinct_map inj_onD)
    moreover have "b1 \<in> set (banks db')"
      using changed(1,4) by (auto simp: image_iff intro!: bexI [of _ b0])
    ultimately show ?thesis using changed(2,3) by auto
  next
    case False
    then have "b \<in> set (banks db')"
      using assms(3) changed(4) by (auto simp: image_iff intro!: bexI [of _ b])
    then show ?thesis by auto
  qed
next
  case (added bn)
  then show ?thesis using assms(3) by auto
qed

lemma bank_distinct_apply_request:
  "distinct (map bank_id (banks db)) \<Longrightarrow> distinct (map bank_id (banks (apply_request db op)))"
  by (auto simp: apply_request_def split: sum.splits
        intro: bank_effect_distinct bank_effect_request)

lemma bank_distinct_run:
  "distinct (map bank_id (banks db)) \<Longrightarrow> distinct (map bank_id (banks (run db ops)))"
  by (induction ops arbitrary: db) (simp_all add: bank_distinct_apply_request)

lemma bank_forward_apply_request:
  assumes "distinct (map bank_id (banks db))" and "b \<in> set (banks db)"
  shows "\<exists>b' \<in> set (banks (apply_request db op)). bank_id b' = bank_id b
           \<and> bank_rank (bank_state b) \<le> bank_rank (bank_state b')"
proof (cases "request db op")
  case (Inl e)
  then show ?thesis using assms(2) by (auto simp: apply_request_def)
next
  case (Inr db')
  then show ?thesis
    using bank_effect_forward [OF bank_effect_request [OF Inr] assms]
    by (simp add: apply_request_def)
qed

lemma bank_forward_run:
  "distinct (map bank_id (banks db)) \<Longrightarrow> b \<in> set (banks db) \<Longrightarrow>
   \<exists>b' \<in> set (banks (run db ops)). bank_id b' = bank_id b
     \<and> bank_rank (bank_state b) \<le> bank_rank (bank_state b')"
proof (induction ops arbitrary: db b)
  case Nil
  then show ?case by auto
next
  case (Cons op ops)
  from bank_forward_apply_request [OF Cons.prems, of op]
  obtain b1 where b1: "b1 \<in> set (banks (apply_request db op))" "bank_id b1 = bank_id b"
    "bank_rank (bank_state b) \<le> bank_rank (bank_state b1)" by auto
  from Cons.IH [OF bank_distinct_apply_request [OF Cons.prems(1)] b1(1)]
  obtain b' where "b' \<in> set (banks (run (apply_request db op) ops))" "bank_id b' = bank_id b1"
    "bank_rank (bank_state b1) \<le> bank_rank (bank_state b')" by auto
  then show ?case using b1 by (auto intro!: bexI [of _ b'])
qed

section \<open>The claims\<close>

text \<open>
  C2. A transition that raises changes nothing: the session (with both history
  tables) and the entity are returned exactly as they were passed in, for donors and
  for banks; and it raises only because the edge is not in the graph.
\<close>

theorem failed_transition_changes_nothing:
  "(fst (transition_donor_state db donor new_state changed_by changed_by_role reason) = Inl e
      \<longrightarrow> snd (transition_donor_state db donor new_state changed_by changed_by_role reason)
            = (db, donor)
          \<and> \<not> can_transition_donor_state (donor_state donor) new_state)
   \<and> (fst (transition_bank_state db bank bank_new_state bank_changed_by bank_reason) = Inl e'
      \<longrightarrow> snd (transition_bank_state db bank bank_new_state bank_changed_by bank_reason)
            = (db, bank)
          \<and> \<not> can_transition_bank_state (bank_state bank) bank_new_state)"
  by (simp add: transition_donor_state_def transition_bank_state_def Let_def)

theorem failed_transition_changes_nothing_witness:
  "fst (transition_donor_state example_seeded_db example_visitor CONSENT_PENDING
          ''D0'' ''donor'' None) = Inl ValueError
   \<and> snd (transition_donor_state example_seeded_db example_visitor CONSENT_PENDING
          ''D0'' ''donor'' None) = (example_seeded_db, example_visitor)
   \<and> fst (transition_bank_state example_seeded_db example_new_bank BANK_OPERATIONAL
          ''B0'' None) = Inl ValueError
   \<and> snd (transition_bank_state example_seeded_db example_new_bank BANK_OPERATIONAL
          ''B0'' None) = (example_seeded_db, example_new_bank)"
proof -
  have d: "fst (transition_donor_state example_seeded_db example_visitor CONSENT_PENDING
                  ''D0'' ''donor'' None) = Inl ValueError"
    by (simp add: transition_donor_state_def can_transition_donor_rank example_visitor_def)
  have b: "fst (transition_bank_state example_seeded_db example_new_bank BANK_OPERATIONAL
                  ''B0'' None) = Inl ValueError"
    by (simp add: transition_bank_state_def can_transition_bank_rank example_new_bank_def)
  from d b
    failed_transition_changes_nothing
      [of example_seeded_db example_visitor CONSENT_PENDING "''D0''" "''donor''" None ValueError
          example_new_bank BANK_OPERATIONAL "''B0''" None ValueError]
  show ?thesis by simp
qed

section \<open>Facts about the example data\<close>

lemma run_append: "run db (ops @ later) = run (run db ops) later"
  by (induction ops arbitrary: db) simp_all

lemma seeded_pending_autoflush: "autoflush seeded_pending_db"
  by code_simp

lemma seeded_pending_distinct: "distinct (map donor_id (donors seeded_pending_db))"
  by code_simp

lemma seeded_pending_consent:
  "find (\<lambda>c. consent_id c = ''C4'') (donor_consents seeded_pending_db)
     = Some (example_consent ''C4'' ''T4'' CS_SIGNED)"
  by code_simp

lemma seeded_pending_donor:
  "find (\<lambda>d. donor_id d = consent_donor_id (example_consent ''C4'' ''T4'' CS_SIGNED)
              \<and> donor_bank_id d = Some (bank_id (example_bank ''B1'')))
     (donors seeded_pending_db) = Some (example_donor CONSENT_PENDING)"
  by code_simp

lemma seeded_pending_verify:
  "verify_consent seeded_pending_db (example_bank ''B1'') ''C4'' CS_VERIFIED None 7
     = Inr seeded_verified_db"
  by code_simp

lemma seeded_verified_quorum: "quorum_reached seeded_verified_db ''D1''"
  by code_simp

lemma seeded_verified_history:
  "donor_state_history seeded_verified_db \<noteq> donor_state_history seeded_pending_db"
  by code_simp

lemma counseling_db_donor:
  "get_donor (counseling_db False) ''D1'' = Some (example_donor COUNSELING_REQUESTED)"
  "get_donor (counseling_db True) ''D1'' = Some (example_donor COUNSELING_REQUESTED)"
  by code_simp code_simp

lemma counseling_db_consents:
  "donor_consents (counseling_db False) = []"
  "donor_consents (counseling_db True) = []"
  by code_simp code_simp

lemma counseling_db_sign:
  "sign_consent (counseling_db False) (example_donor COUNSELING_REQUESTED) ''T1'' ''C1'' 3
     = Inr (first_signed_db False)"
  "sign_consent (counseling_db True) (example_donor COUNSELING_REQUESTED) ''T1'' ''C1'' 3
     = Inr (first_signed_db True)"
  by code_simp code_simp

lemma first_signed_donor:
  "get_donor (first_signed_db False) ''D1'' = Some (example_donor CONSENT_PENDING)"
  "get_donor (first_signed_db True) ''D1'' = Some (example_donor COUNSELING_REQUESTED)"
  by code_simp code_simp


lemma verify_consent_found:
  assumes "find (\<lambda>c. consent_id c = cid) (donor_consents db) = Some consent"
    and "find (\<lambda>d. donor_id d = consent_donor_id consent
                     \<and> donor_bank_id d = Some (bank_id current_bank)) (donors db) = Some donor"
    and "consent1 = consent\<lparr>consent_status := st,
           consent_verified_at := Some now, consent_verified_by := Some (bank_id current_bank),
           verification_notes := notes\<rparr>"
    and "db1 = db\<lparr>donor_consents :=
           map (\<lambda>c. if consent_id c = consent_id consent1 then consent1 else c)
             (donor_consents db)\<rparr>"
  shows "verify_consent db current_bank cid st notes now =
           (if quorum_reached (if autoflush db then db1 else db) (donor_id donor)
               \<and> donor_state donor = CONSENT_PENDING
            then Inr (fst (snd (transition_donor_state db1 donor CONSENT_VERIFIED
                                 (bank_id current_bank) ''bank''
                                 (Some ''All consents verified by bank''))))
            else Inr db1)"
proof -
  have ok: "donor_state donor = CONSENT_PENDING \<Longrightarrow>
        fst (transition_donor_state db1 donor CONSENT_VERIFIED (bank_id current_bank) ''bank''
                (Some ''All consents verified by bank'')) = Inr ()"
    by (simp add: transition_donor_state_ok can_transition_donor_rank)
  show ?thesis
    unfolding verify_consent_def quorum_reached_def Let_def assms(1) assms(2) option.case
      assms(3) [symmetric] assms(4) [symmetric]
    using ok by (auto simp: then_on_def split_beta)
qed

text \<open>
  The quorum of \<^verbatim>\<open>verify_consent\<close> on a session that autoflushes: on a consent of a
  donor of the acting bank the call succeeds, and it moves the donor to
  \<^verbatim>\<open>CONSENT_VERIFIED\<close> in the same call exactly when, counted on the rows after the
  verification is recorded, the donor has at least 4 consents and at least 4 verified
  ones and the donor is in \<^verbatim>\<open>CONSENT_PENDING\<close>; otherwise the donor row is unchanged.
\<close>

theorem verify_consent_quorum_autoflush:
  assumes "autoflush db"
    and "distinct (map donor_id (donors db))"
    and "find (\<lambda>c. consent_id c = cid) (donor_consents db) = Some consent"
    and "find (\<lambda>d. donor_id d = consent_donor_id consent
                     \<and> donor_bank_id d = Some (bank_id current_bank)) (donors db) = Some donor"
  shows "\<exists>db'. verify_consent db current_bank cid st notes now = Inr db'
           \<and> get_donor db' (donor_id donor) =
               Some (if quorum_reached db' (donor_id donor) \<and> donor_state donor = CONSENT_PENDING
                     then donor\<lparr>donor_state := CONSENT_VERIFIED\<rparr> else donor)"
proof -
  have g: "get_donor db (donor_id donor) = Some donor"
    using assms(2,4) by (rule get_donor_of_found)
  define consent1 where "consent1 = consent\<lparr>consent_status := st,
      consent_verified_at := Some now, consent_verified_by := Some (bank_id current_bank),
      verification_notes := notes\<rparr>"
  define db1 where "db1 = db\<lparr>donor_consents :=
      map (\<lambda>c. if consent_id c = consent_id consent1 then consent1 else c) (donor_consents db)\<rparr>"
  have g1: "get_donor db1 (donor_id donor) = Some donor"
    using g by (simp add: db1_def get_donor_other_tables)
  show ?thesis
  proof (cases "quorum_reached db1 (donor_id donor) \<and> donor_state donor = CONSENT_PENDING")
    case True
    then have ok: "can_transition_donor_state (donor_state donor) CONSENT_VERIFIED"
      by (simp add: can_transition_donor_rank)
    let ?t = "transition_donor_state db1 donor CONSENT_VERIFIED (bank_id current_bank) ''bank''
                (Some ''All consents verified by bank'')"
    have res: "verify_consent db current_bank cid st notes now = Inr (fst (snd ?t))"
      using verify_consent_found [OF assms(3,4) consent1_def db1_def] True assms(1)
      by simp
    have cons: "donor_consents (fst (snd ?t)) = donor_consents db1"
      using ok by (simp add: transition_donor_state_result commit_donor_def)
    have "get_donor (fst (snd ?t)) (donor_id donor) = Some (donor\<lparr>donor_state := CONSENT_VERIFIED\<rparr>)"
      using ok g1 by (simp add: transition_donor_state_result get_donor_other_tables get_donor_commit)
    moreover have "quorum_reached (fst (snd ?t)) (donor_id donor)"
      using True cons by (simp add: quorum_reached_def)
    ultimately show ?thesis using res True by auto
  next
    case False
    have res: "verify_consent db current_bank cid st notes now = Inr db1"
      using verify_consent_found [OF assms(3,4) consent1_def db1_def] False assms(1)
      by auto
    show ?thesis using res False g1 by auto
  qed
qed

theorem verify_consent_quorum_autoflush_witness:
  "autoflush seeded_pending_db
   \<and> verify_consent seeded_pending_db (example_bank ''B1'') ''C4'' CS_VERIFIED None 7
       = Inr seeded_verified_db
   \<and> quorum_reached seeded_verified_db ''D1''
   \<and> get_donor seeded_verified_db ''D1'' = Some (example_donor CONSENT_VERIFIED)"
proof -
  from verify_consent_quorum_autoflush
         [OF seeded_pending_autoflush seeded_pending_distinct seeded_pending_consent
             seeded_pending_donor, of CS_VERIFIED None 7]
  have "get_donor seeded_verified_db (donor_id (example_donor CONSENT_PENDING)) =
          Some (if quorum_reached seeded_verified_db (donor_id (example_donor CONSENT_PENDING))
                   \<and> donor_state (example_donor CONSENT_PENDING) = CONSENT_PENDING
                then (example_donor CONSENT_PENDING)\<lparr>donor_state := CONSENT_VERIFIED\<rparr>
                else example_donor CONSENT_PENDING)"
    by (simp add: seeded_pending_verify)
  then have "get_donor seeded_verified_db ''D1'' = Some (example_donor CONSENT_VERIFIED)"
    using seeded_verified_quorum by (simp add: example_donor_def)
  then show ?thesis
    using seeded_pending_autoflush seeded_pending_verify seeded_verified_quorum by simp
qed

lemma three_verified_facts:
  "get_donor three_verified_db ''D1'' = Some (example_donor CONSENT_PENDING)"
  "verify_consent three_verified_db (example_bank ''B1'') ''C4'' CS_VERIFIED None 7
     = Inr fourth_verified_db"
  by code_simp code_simp

lemma fourth_verified_facts:
  "quorum_reached fourth_verified_db ''D1''"
  "get_donor fourth_verified_db ''D1'' = Some (example_donor CONSENT_PENDING)"
  by code_simp code_simp

text \<open>
  C1. The 4th verification does not advance the donor on a session that does not
  autoflush. The database is reached through the API: donor D1 of bank B1 is in
  \<^verbatim>\<open>CONSENT_PENDING\<close> with four consents, three of them verified. Bank B1 verifies
  the fourth: the call succeeds, after it 4 of 4 consents are verified, and the donor is
  still in \<^verbatim>\<open>CONSENT_PENDING\<close>, because the two counts were read before the
  assignment to \<^verbatim>\<open>consent.status\<close> was flushed.
\<close>

theorem fourth_verification_leaves_consent_pending:
  "\<not> autoflush three_verified_db
   \<and> get_donor three_verified_db ''D1'' = Some (example_donor CONSENT_PENDING)
   \<and> verify_consent three_verified_db (example_bank ''B1'') ''C4'' CS_VERIFIED None 7
       = Inr fourth_verified_db
   \<and> quorum_reached fourth_verified_db ''D1''
   \<and> get_donor fourth_verified_db ''D1'' = Some (example_donor CONSENT_PENDING)
   \<and> donor_state (example_donor CONSENT_PENDING) \<noteq> CONSENT_VERIFIED"
proof -
  have "\<not> autoflush three_verified_db" by code_simp
  then show ?thesis
    using three_verified_facts fourth_verified_facts by (simp add: example_donor_def)
qed

text \<open>
  In general, on a session that does not autoflush the quorum is tested on the rows as
  they were before the call: while they do not meet it, no verification moves a donor.
\<close>

lemma verify_consent_without_autoflush_reads_old_counts:
  assumes "\<not> autoflush db" and "\<forall>i. \<not> quorum_reached db i"
    and "verify_consent db current_bank cid st notes now = Inr db'"
  shows "donors db' = donors db \<and> donor_state_history db' = donor_state_history db"
  using assms unfolding verify_consent_def quorum_reached_def
  by (auto simp: Let_def split: option.splits if_splits)




text \<open>
  The same first signature on a session that autoflushes: the count already includes
  the row just added, the test \<^verbatim>\<open>total_consents == 0\<close> fails and the donor stays in
  \<^verbatim>\<open>COUNSELING_REQUESTED\<close>.
\<close>

theorem first_signature_with_autoflush_stays:
  "autoflush (counseling_db True)
   \<and> get_donor (counseling_db True) ''D1'' = Some (example_donor COUNSELING_REQUESTED)
   \<and> donor_consents (counseling_db True) = []
   \<and> sign_consent (counseling_db True) (example_donor COUNSELING_REQUESTED) ''T1'' ''C1'' 3
       = Inr (first_signed_db True)
   \<and> get_donor (first_signed_db True) ''D1'' = Some (example_donor COUNSELING_REQUESTED)
   \<and> donor_state (example_donor COUNSELING_REQUESTED) \<noteq> CONSENT_PENDING"
proof -
  have "autoflush (counseling_db True)" by code_simp
  then show ?thesis
    using counseling_db_donor(2) counseling_db_consents(2) counseling_db_sign(2)
      first_signed_donor(2)
    by (simp add: example_donor_def)
qed

text \<open>
  In general, on a session that autoflushes no call of \<^verbatim>\<open>sign_consent\<close> moves a
  donor, so no donor reaches \<^verbatim>\<open>CONSENT_PENDING\<close> through the API.
\<close>

lemma sign_consent_with_autoflush_never_advances:
  assumes "autoflush db" and "sign_consent db current_donor tid new_id now = Inr db'"
  shows "donors db' = donors db \<and> donor_state_history db' = donor_state_history db"
  using assms unfolding sign_consent_def
  by (auto simp: Let_def split: option.splits if_splits)

text \<open>
  C9 (as amended). Whenever \<^verbatim>\<open>verify_consent\<close> writes a history row, it is the row
  of the transition from \<^verbatim>\<open>CONSENT_PENDING\<close> to \<^verbatim>\<open>CONSENT_VERIFIED\<close>, and it is
  attributed to the bank that performed the verification: \<^verbatim>\<open>changed_by\<close> is the
  bank's id and \<^verbatim>\<open>changed_by_role\<close> is \<^verbatim>\<open>"bank"\<close>.
\<close>

theorem quorum_history_row_names_bank:
  assumes "verify_consent db current_bank cid st notes now = Inr db'"
    and "donor_state_history db' \<noteq> donor_state_history db"
  shows "\<exists>d. donor_state_history db' = donor_state_history db @
           [\<lparr>dh_donor_id = d, dh_from_state = Some CONSENT_PENDING,
             dh_to_state = CONSENT_VERIFIED, dh_changed_by = bank_id current_bank,
             dh_changed_by_role = ''bank'',
             dh_reason = Some ''All consents verified by bank''\<rparr>]"
  using assms unfolding verify_consent_def
  by (auto simp: Let_def then_on_def transition_donor_state_def commit_donor_def
        split: option.splits if_splits)

theorem quorum_history_row_names_bank_witness:
  "verify_consent seeded_pending_db (example_bank ''B1'') ''C4'' CS_VERIFIED None 7
     = Inr seeded_verified_db
   \<and> (\<exists>d. donor_state_history seeded_verified_db = donor_state_history seeded_pending_db @
           [\<lparr>dh_donor_id = d, dh_from_state = Some CONSENT_PENDING,
             dh_to_state = CONSENT_VERIFIED, dh_changed_by = ''B1'',
             dh_changed_by_role = ''bank'',
             dh_reason = Some ''All consents verified by bank''\<rparr>])"
  using quorum_history_row_names_bank [OF seeded_pending_verify seeded_verified_history]
    seeded_pending_verify
  by (simp add: example_bank_def)

lemma quorum_rows:
  "donor_state_history seeded_verified_db =
     [\<lparr>dh_donor_id = ''D1'', dh_from_state = Some CONSENT_PENDING,
       dh_to_state = CONSENT_VERIFIED, dh_changed_by = ''B1'',
       dh_changed_by_role = ''bank'',
       dh_reason = Some ''All consents verified by bank''\<rparr>]"
  "get_donor reverified_db ''D1'' = Some (example_donor CONSENT_VERIFIED)"
  "dh_changed_by_role (last (donor_state_history reverified_db)) = ''bank''"
  "dh_changed_by (last (donor_state_history reverified_db)) = ''B1''"
  "dh_to_state (last (donor_state_history reverified_db)) = CONSENT_VERIFIED"
  by (code_simp, code_simp, code_simp, code_simp, code_simp)

theorem quorum_row_is_not_system_counterexample:
  "get_donor seeded_pending_db ''D1'' = Some (example_donor CONSENT_PENDING)
   \<and> get_donor seeded_verified_db ''D1'' = Some (example_donor CONSENT_VERIFIED)
   \<and> dh_to_state (last (donor_state_history seeded_verified_db)) = CONSENT_VERIFIED
   \<and> dh_changed_by_role (last (donor_state_history seeded_verified_db)) = ''bank''
   \<and> dh_changed_by (last (donor_state_history seeded_verified_db)) = ''B1''
   \<and> dh_changed_by_role (last (donor_state_history seeded_verified_db)) \<noteq> ''system''
   \<and> get_donor reverified_db ''D1'' = Some (example_donor CONSENT_VERIFIED)
   \<and> dh_to_state (last (donor_state_history reverified_db)) = CONSENT_VERIFIED
   \<and> dh_changed_by_role (last (donor_state_history reverified_db)) = ''bank''
   \<and> dh_changed_by_role (last (donor_state_history reverified_db)) \<noteq> ''system''"
proof -
  have "get_donor seeded_pending_db ''D1'' = Some (example_donor CONSENT_PENDING)"
    by code_simp
  moreover have "get_donor seeded_verified_db ''D1'' = Some (example_donor CONSENT_VERIFIED)"
    by code_simp
  ultimately show ?thesis using quorum_rows by simp
qed

text \<open>
  C10. \<^verbatim>\<open>sign_consent\<close> accepts a donor in \<^verbatim>\<open>ACCOUNT_CREATED\<close>: with a template of
  the donor's bank that the donor has not signed yet, it adds a consent row in status
  signed and changes nothing else (in particular not the donor's state), although
  \<^verbatim>\<open>DonorService.can_sign_consent\<close> is false for such a donor: that predicate admits
  \<^verbatim>\<open>COUNSELING_REQUESTED\<close> and \<^verbatim>\<open>CONSENT_PENDING\<close> only.
\<close>

theorem sign_consent_accepts_account_created:
  assumes "donor_state current_donor = ACCOUNT_CREATED"
    and "find (\<lambda>t. template_id t = tid \<and> Some (template_bank_id t) = donor_bank_id current_donor)
           (consent_templates db) = Some template"
    and "find (\<lambda>c. consent_donor_id c = donor_id current_donor \<and> consent_template_id c = tid)
           (donor_consents db) = None"
    and "new_id \<notin> consent_id ` set (donor_consents db)"
  shows "sign_consent db current_donor tid new_id now =
           Inr (db\<lparr>donor_consents := donor_consents db @
                  [\<lparr>consent_id = new_id, consent_donor_id = donor_id current_donor,
                    consent_template_id = tid, consent_status = CS_SIGNED,
                    signed_at = Some now, consent_verified_at = None,
                    consent_verified_by = None, verification_notes = None\<rparr>]\<rparr>)
         \<and> \<not> can_sign_consent current_donor
         \<and> can_sign_consent any_donor
             = (donor_state any_donor = COUNSELING_REQUESTED
                \<or> donor_state any_donor = CONSENT_PENDING)"
  using assms unfolding sign_consent_def can_sign_consent_def by (auto simp: Let_def)

lemma account_db_facts:
  "find (\<lambda>t. template_id t = ''T1''
              \<and> Some (template_bank_id t) = donor_bank_id (example_donor ACCOUNT_CREATED))
     (consent_templates account_db)
     = Some \<lparr>template_id = ''T1'', template_bank_id = ''B1'', template_order = 1,
             template_is_active = True\<rparr>"
  "find (\<lambda>c. consent_donor_id c = donor_id (example_donor ACCOUNT_CREATED)
              \<and> consent_template_id c = ''T1'') (donor_consents account_db) = None"
  "''C1'' \<notin> consent_id ` set (donor_consents account_db)"
  "get_donor account_db ''D1'' = Some (example_donor ACCOUNT_CREATED)"
  "donor_consents account_db = []"
  by (code_simp, code_simp, code_simp, code_simp, code_simp)

theorem sign_consent_accepts_account_created_witness:
  "get_donor account_db ''D1'' = Some (example_donor ACCOUNT_CREATED)
   \<and> sign_consent account_db (example_donor ACCOUNT_CREATED) ''T1'' ''C1'' 3 =
       Inr (account_db\<lparr>donor_consents :=
              [\<lparr>consent_id = ''C1'', consent_donor_id = ''D1'',
                consent_template_id = ''T1'', consent_status = CS_SIGNED,
                signed_at = Some 3, consent_verified_at = None,
                consent_verified_by = None, verification_notes = None\<rparr>]\<rparr>)
   \<and> \<not> can_sign_consent (example_donor ACCOUNT_CREATED)"
proof -
  have st: "donor_state (example_donor ACCOUNT_CREATED) = ACCOUNT_CREATED"
    by (simp add: example_donor_def)
  from sign_consent_accepts_account_created
         [OF st account_db_facts(1) account_db_facts(2) account_db_facts(3), of 3]
  show ?thesis
    using account_db_facts(4,5) by (simp add: example_donor_def)
qed

text \<open>
  C6 (as amended). For a bank that exists and is not yet verified, \<^verbatim>\<open>verify_bank\<close>
  (called by a super\_admin or support admin) sets \<^verbatim>\<open>is_verified\<close>,
  \<^verbatim>\<open>verified_at\<close> and \<^verbatim>\<open>verified_by\<close> whatever the bank's state is, moves the state
  to \<^verbatim>\<open>VERIFIED\<close> exactly when it was \<^verbatim>\<open>VERIFICATION_PENDING\<close>, leaves it as it
  was otherwise, and writes no history row.
\<close>

theorem verify_bank_unverified:
  assumes "admin_role \<in> set [''super_admin'', ''support'']"
    and "get_bank db bid = Some bank"
    and "\<not> is_verified bank"
  shows "\<exists>db' bank'. verify_bank db admin_role bid admin_name now = Inr db'
           \<and> get_bank db' bid = Some bank'
           \<and> is_verified bank' \<and> verified_at bank' = Some now
           \<and> verified_by bank' = Some admin_name
           \<and> bank_state bank' =
                (if bank_state bank = BANK_VERIFICATION_PENDING then BANK_VERIFIED
                 else bank_state bank)
           \<and> bank_state_history db' = bank_state_history db"
proof -
  from assms(2) have id: "bank_id bank = bid"
    unfolding get_bank_def by (auto dest: find_Some_key)
  let ?b1 = "bank\<lparr>is_verified := True, verified_at := Some now, verified_by := Some admin_name\<rparr>"
  let ?b2 = "if bank_state ?b1 = BANK_VERIFICATION_PENDING then ?b1\<lparr>bank_state := BANK_VERIFIED\<rparr> else ?b1"
  have run: "verify_bank db admin_role bid admin_name now = Inr (commit_bank db ?b2)"
    using assms unfolding verify_bank_def require_role_def and_then_def get_bank_def
    by (simp add: Let_def)
  have "get_bank (commit_bank db ?b2) bid = Some ?b2"
    using assms(2) id by (simp add: get_bank_commit)
  moreover have "bank_state_history (commit_bank db ?b2) = bank_state_history db"
    by (simp add: commit_bank_def)
  ultimately show ?thesis using run by (intro exI [of _ "commit_bank db ?b2"] exI [of _ ?b2]) simp
qed

lemma registered_bank_facts:
  "get_bank registered_bank_db ''B1'' = Some (example_new_bank\<lparr>bank_id := ''B1'', bank_email := ''B1@example.com''\<rparr>)"
  by code_simp

theorem verify_bank_unverified_witness:
  "map_option bank_state (get_bank registered_bank_db ''B1'') = Some BANK_ACCOUNT_CREATED
   \<and> map_option is_verified (get_bank registered_bank_db ''B1'') = Some False
   \<and> (\<exists>db' bank'. verify_bank registered_bank_db ''support'' ''B1'' ''admin-1'' 1 = Inr db'
           \<and> get_bank db' ''B1'' = Some bank'
           \<and> is_verified bank' \<and> verified_at bank' = Some 1
           \<and> verified_by bank' = Some ''admin-1''
           \<and> bank_state bank' = BANK_ACCOUNT_CREATED
           \<and> bank_state_history db' = bank_state_history registered_bank_db)"
proof -
  have r: "''support'' \<in> set [''super_admin'', ''support'']" by simp
  have u: "\<not> is_verified (example_new_bank\<lparr>bank_id := ''B1'', bank_email := ''B1@example.com''\<rparr>)"
    by (simp add: example_new_bank_def)
  from verify_bank_unverified [OF r registered_bank_facts u, of "''admin-1''" 1]
  show ?thesis
    using registered_bank_facts by (simp add: example_new_bank_def)
qed

lemma verified_bank_facts:
  "map_option bank_state (get_bank verified_bank_db ''B1'') = Some BANK_VERIFIED"
  "map_option verified_by (get_bank verified_bank_db ''B1'') = Some (Some ''admin-1'')"
  "map_option verified_at (get_bank verified_bank_db ''B1'') = Some (Some 1)"
  "verify_bank verified_bank_db ''super_admin'' ''B1'' ''admin-2'' 5 = Inl (HTTPException 400)"
  "apply_request verified_bank_db (AdminVerifyBank ''super_admin'' ''B1'' ''admin-2'' 5)
     = verified_bank_db"
  by (code_simp, code_simp, code_simp, code_simp, code_simp)

theorem verify_bank_again_counterexample:
  "verify_bank verified_bank_db ''super_admin'' ''B1'' ''admin-2'' 5 = Inl (HTTPException 400)
   \<and> apply_request verified_bank_db (AdminVerifyBank ''super_admin'' ''B1'' ''admin-2'' 5)
       = verified_bank_db
   \<and> map_option verified_by (get_bank verified_bank_db ''B1'') = Some (Some ''admin-1'')
   \<and> map_option verified_at (get_bank verified_bank_db ''B1'') = Some (Some 1)
   \<and> Some (Some ''admin-1'') \<noteq> Some (Some ''admin-2'')"
  using verified_bank_facts by simp

text \<open>
  C7. A bank that asks for a donor of another bank: \<^verbatim>\<open>verify_consent\<close> raises 403,
  but \<^verbatim>\<open>upload_test_report\<close> and \<^verbatim>\<open>make_eligibility_decision\<close> raise 404, although
  the service layer's checks for the same two operations
  (\<^verbatim>\<open>can_bank_upload_report\<close>, \<^verbatim>\<open>can_make_eligibility_decision\<close>) raise 403. Here
  bank B2 is verified and subscribed, and donor D1 (with consent C1) belongs to B1.
\<close>

theorem ownership_mismatch_status_codes:
  "subscribed_bank_of two_banks_db ''B2'' ''bank'' = Inr (example_bank ''B2'')
   \<and> get_donor two_banks_db ''D1'' = Some (example_donor CONSENT_PENDING)
   \<and> donor_bank_id (example_donor CONSENT_PENDING) = Some ''B1''
   \<and> verify_consent two_banks_db (example_bank ''B2'') ''C1'' CS_VERIFIED None 9
       = Inl (HTTPException 403)
   \<and> upload_test_report two_banks_db (example_bank ''B2'') ''D1'' (Inr ''report.pdf'') ''R1''
       = Inl (HTTPException 404)
   \<and> make_eligibility_decision two_banks_db (example_bank ''B2'') ''D1'' ES_APPROVED None 9
       = Inl (HTTPException 404)
   \<and> can_bank_upload_report (example_bank ''B2'') (example_donor CONSENT_PENDING)
       = Inl (HTTPException 403)
   \<and> can_make_eligibility_decision (example_bank ''B2'') (example_donor CONSENT_PENDING)
       = Inl (HTTPException 403)"
proof -
  have "subscribed_bank_of two_banks_db ''B2'' ''bank'' = Inr (example_bank ''B2'')"
    by code_simp
  moreover have "get_donor two_banks_db ''D1'' = Some (example_donor CONSENT_PENDING)"
    by code_simp
  moreover have "verify_consent two_banks_db (example_bank ''B2'') ''C1'' CS_VERIFIED None 9
       = Inl (HTTPException 403)"
    by code_simp
  moreover have "upload_test_report two_banks_db (example_bank ''B2'') ''D1'' (Inr ''report.pdf'') ''R1''
       = Inl (HTTPException 404)"
    by code_simp
  moreover have "make_eligibility_decision two_banks_db (example_bank ''B2'') ''D1'' ES_APPROVED None 9
       = Inl (HTTPException 404)"
    by code_simp
  ultimately show ?thesis
    by (simp add: can_bank_upload_report_def can_make_eligibility_decision_def
          example_bank_def example_donor_def)
qed

lemma get_donor_transition:
  assumes "can_transition_donor_state (donor_state donor) ns"
    and "get_donor db (donor_id donor) = Some x"
  shows "get_donor (fst (snd (transition_donor_state db donor ns cb role r))) (donor_id donor)
           = Some (donor\<lparr>donor_state := ns\<rparr>)
         \<and> snd (snd (transition_donor_state db donor ns cb role r)) = donor\<lparr>donor_state := ns\<rparr>"
  using assms
  by (simp add: transition_donor_state_result get_donor_other_tables get_donor_commit)

text \<open>
  C8. In a database reached through the API, for a donor of the acting bank in
  \<^verbatim>\<open>TESTS_PENDING\<close>, \<^verbatim>\<open>make_eligibility_decision\<close> succeeds, records the supplied
  status and notes (and the time), and leaves the donor in \<^verbatim>\<open>DONOR_ONBOARDED\<close> when
  the status is approved and in \<^verbatim>\<open>ELIGIBILITY_DECISION\<close> otherwise; in the second
  case no later sequence of requests changes the donor's row, so it never reaches
  \<^verbatim>\<open>DONOR_ONBOARDED\<close>.
\<close>

theorem eligibility_decision_outcome:
  assumes "db = run (empty_db af) ops"
    and "find (\<lambda>d. donor_id d = did \<and> donor_bank_id d = Some (bank_id current_bank))
           (donors db) = Some donor"
    and "donor_state donor = TESTS_PENDING"
  shows "\<exists>db'. make_eligibility_decision db current_bank did st notes now = Inr db'
           \<and> get_donor db' did =
               Some (donor\<lparr>eligibility_status := st, eligibility_notes := notes,
                           eligibility_decided_at := Some now,
                           donor_state := (if st = ES_APPROVED then DONOR_ONBOARDED
                                           else ELIGIBILITY_DECISION)\<rparr>)
           \<and> (st \<noteq> ES_APPROVED \<longrightarrow> get_donor (run db' later_ops) did = get_donor db' did)"
proof -
  have inv: "donor_inv db" using assms(1) donor_inv_reachable by simp
  then have dist: "distinct (map donor_id (donors db))" by (simp add: donor_inv_def)
  from assms(2) have id: "donor_id donor = did" by (auto dest: find_Some_key)
  have g: "get_donor db did = Some donor"
    using get_donor_of_found [OF dist assms(2)] id by simp
  define d1 where "d1 = donor\<lparr>eligibility_status := st, eligibility_notes := notes,
      eligibility_decided_at := Some now\<rparr>"
  have d1: "donor_id d1 = did" "donor_state d1 = TESTS_PENDING"
    using id assms(3) by (simp_all add: d1_def)
  have ok1: "can_transition_donor_state (donor_state d1) ELIGIBILITY_DECISION"
    using d1(2) by (simp add: can_transition_donor_rank)
  let ?t1 = "transition_donor_state db d1 ELIGIBILITY_DECISION (bank_id current_bank) ''bank''
               (Some (''Eligibility decision: '' @ EligibilityStatus_value st))"
  have g1: "get_donor (fst (snd ?t1)) did = Some (d1\<lparr>donor_state := ELIGIBILITY_DECISION\<rparr>)"
    and s1: "snd (snd ?t1) = d1\<lparr>donor_state := ELIGIBILITY_DECISION\<rparr>"
    using get_donor_transition [OF ok1, of db donor] g d1(1) by simp_all
  have f1: "fst ?t1 = Inr ()"
    using ok1 by (simp only: transition_donor_state_ok)
  show ?thesis
  proof (cases "st = ES_APPROVED")
    case False
    have r: "make_eligibility_decision db current_bank did st notes now = Inr (fst (snd ?t1))"
      using assms(2,3) False f1
      by (simp add: make_eligibility_decision_def Let_def then_on_def split_beta d1_def)
    have inv': "donor_inv (fst (snd ?t1))"
      using donor_inv_effect [OF make_eligibility_decision_effect [OF r] inv] .
    have "get_donor (run (fst (snd ?t1)) later_ops) did
            = Some (d1\<lparr>donor_state := ELIGIBILITY_DECISION\<rparr>)"
      using stays_in_decision_run [OF inv' g1] by simp
    then show ?thesis using r g1 False by (simp add: d1_def)
  next
    case True
    let ?t2 = "transition_donor_state (fst (snd ?t1)) (snd (snd ?t1)) DONOR_ONBOARDED
                 (bank_id current_bank) ''bank'' (Some ''Donor approved and onboarded'')"
    have ok2: "can_transition_donor_state (donor_state (snd (snd ?t1))) DONOR_ONBOARDED"
      using s1 by (simp add: can_transition_donor_rank)
    have f2: "fst ?t2 = Inr ()"
      using ok2 by (simp only: transition_donor_state_ok)
    have r: "make_eligibility_decision db current_bank did st notes now = Inr (fst (snd ?t2))"
      using assms(2,3) True f1 f2
      by (simp add: make_eligibility_decision_def Let_def then_on_def split_beta d1_def)
    have g1': "get_donor (fst (snd ?t1)) (donor_id (snd (snd ?t1)))
                 = Some (d1\<lparr>donor_state := ELIGIBILITY_DECISION\<rparr>)"
      using g1 s1 d1(1) by simp
    have "get_donor (fst (snd ?t2)) (donor_id (snd (snd ?t1)))
            = Some ((snd (snd ?t1))\<lparr>donor_state := DONOR_ONBOARDED\<rparr>)"
      using get_donor_transition [OF ok2 g1'] by (rule conjunct1)
    then have "get_donor (fst (snd ?t2)) did = Some (d1\<lparr>donor_state := DONOR_ONBOARDED\<rparr>)"
      using s1 d1(1) by simp
    then show ?thesis using r True by (simp add: d1_def)
  qed
qed

lemma tests_pending_reachable:
  "tests_pending_db =
     run (empty_db False)
       (counseling_ops @ (sign_ops @ verify3_ops)
        @ [VerifyConsent ''B1'' ''bank'' ''C4'' CS_VERIFIED None 7]
        @ [VerifyConsent ''B1'' ''bank'' ''C4'' CS_VERIFIED None 7]
        @ [UploadTestReport ''B1'' ''bank'' ''D1'' (Inr ''report.pdf'') ''R1''])"
  unfolding tests_pending_db_def reverified_db_def fourth_verified_db_def three_verified_db_def
    counseling_db_def run_append ..

lemma tests_pending_facts:
  "find (\<lambda>d. donor_id d = ''D1'' \<and> donor_bank_id d = Some (bank_id (example_bank ''B1'')))
     (donors tests_pending_db) = Some (example_donor TESTS_PENDING)"
  "get_donor tests_pending_db ''D1'' = Some (example_donor TESTS_PENDING)"
  by (code_simp, code_simp)

theorem eligibility_decision_outcome_witness:
  "get_donor tests_pending_db ''D1'' = Some (example_donor TESTS_PENDING)
   \<and> (\<exists>db'. make_eligibility_decision tests_pending_db (example_bank ''B1'') ''D1''
                ES_REJECTED (Some ''not eligible'') 9 = Inr db'
           \<and> map_option donor_state (get_donor db' ''D1'') = Some ELIGIBILITY_DECISION
           \<and> map_option eligibility_status (get_donor db' ''D1'') = Some ES_REJECTED
           \<and> get_donor
                (run db' [MakeEligibilityDecision ''B1'' ''bank'' ''D1'' ES_APPROVED None 10,
                          UploadTestReport ''B1'' ''bank'' ''D1'' (Inr ''again.pdf'') ''R2''])
                ''D1'' = get_donor db' ''D1'')"
proof -
  have st: "donor_state (example_donor TESTS_PENDING) = TESTS_PENDING"
    by (simp add: example_donor_def)
  from eligibility_decision_outcome
         [OF tests_pending_reachable tests_pending_facts(1) st,
          of ES_REJECTED "Some ''not eligible''" 9
             "[MakeEligibilityDecision ''B1'' ''bank'' ''D1'' ES_APPROVED None 10,
               UploadTestReport ''B1'' ''bank'' ''D1'' (Inr ''again.pdf'') ''R2'']"]
  obtain db' where
    "make_eligibility_decision tests_pending_db (example_bank ''B1'') ''D1''
       ES_REJECTED (Some ''not eligible'') 9 = Inr db'"
    and "get_donor db' ''D1'' =
           Some ((example_donor TESTS_PENDING)
                   \<lparr>eligibility_status := ES_REJECTED, eligibility_notes := Some ''not eligible'',
                    eligibility_decided_at := Some 9, donor_state := ELIGIBILITY_DECISION\<rparr>)"
    and "get_donor
           (run db' [MakeEligibilityDecision ''B1'' ''bank'' ''D1'' ES_APPROVED None 10,
                     UploadTestReport ''B1'' ''bank'' ''D1'' (Inr ''again.pdf'') ''R2''])
           ''D1'' = get_donor db' ''D1''"
    by auto
  then show ?thesis using tests_pending_facts(2) by (intro conjI exI [of _ db']) simp_all
qed

text \<open>
  C3 (as amended). In every database reached through the API from the empty one, the
  history rows of every donor, in insertion order, form a chain: there is at least one
  row, entry 0 starts at \<^verbatim>\<open>BANK_SELECTED\<close> (the state \<^verbatim>\<open>create_lead\<close> inserts the
  donor with; not \<^verbatim>\<open>VISITOR\<close> and not null), each entry starts where the one before
  it ended, and the last entry ends at the donor's current state; so no donor state
  change is without its row.
\<close>

theorem donor_history_is_a_chain:
  assumes "d \<in> set (donors (run (empty_db af) ops))"
  shows "donor_history_of (run (empty_db af) ops) (donor_id d) \<noteq> []
         \<and> dh_from_state (hd (donor_history_of (run (empty_db af) ops) (donor_id d)))
             = Some BANK_SELECTED
         \<and> donor_entries_linked (donor_history_of (run (empty_db af) ops) (donor_id d))
         \<and> dh_to_state (last (donor_history_of (run (empty_db af) ops) (donor_id d)))
             = donor_state d"
proof -
  let ?db = "run (empty_db af) ops"
  have "donor_chain BANK_SELECTED (donor_history_of ?db (donor_id d)) (donor_state d)"
    using donor_inv_reachable [of af ops] assms by (simp add: donor_inv_def)
  moreover have "donor_history_of ?db (donor_id d) \<noteq> []"
    using history_nonempty_run [of "empty_db af" ops] assms by (simp add: empty_db_def)
  ultimately show ?thesis using donor_chain_shape by blast
qed

lemma counseling_members:
  "example_donor COUNSELING_REQUESTED \<in> set (donors (run (empty_db False) counseling_ops))"
  "example_bank ''B1'' \<in> set (banks (run (empty_db False) counseling_ops))"
  "map dh_to_state (donor_history_of (counseling_db False) ''D1'')
     = [LEAD_CREATED, ACCOUNT_CREATED, COUNSELING_REQUESTED]"
  by (code_simp, code_simp, code_simp)

theorem donor_history_is_a_chain_witness:
  "example_donor COUNSELING_REQUESTED \<in> set (donors (counseling_db False))
   \<and> map dh_to_state (donor_history_of (counseling_db False) ''D1'')
       = [LEAD_CREATED, ACCOUNT_CREATED, COUNSELING_REQUESTED]
   \<and> dh_from_state (hd (donor_history_of (counseling_db False) ''D1'')) = Some BANK_SELECTED
   \<and> donor_entries_linked (donor_history_of (counseling_db False) ''D1'')
   \<and> dh_to_state (last (donor_history_of (counseling_db False) ''D1'')) = COUNSELING_REQUESTED"
  using donor_history_is_a_chain [OF counseling_members(1)] counseling_members(1,3)
  by (simp add: counseling_db_def example_donor_def)

lemma broken_bank_chain:
  "map (\<lambda>h. (bh_from_state h, bh_to_state h)) (bank_history_of (counseling_db False) ''B1'')
     = [(Some BANK_ACCOUNT_CREATED, BANK_VERIFICATION_PENDING),
        (Some BANK_VERIFIED, BANK_SUBSCRIPTION_PENDING),
        (Some BANK_SUBSCRIPTION_PENDING, BANK_SUBSCRIBED_ONBOARDED),
        (Some BANK_SUBSCRIBED_ONBOARDED, BANK_OPERATIONAL)]"
  "\<not> bank_entries_linked (bank_history_of (counseling_db False) ''B1'')"
  "dh_from_state (hd (donor_history_of (counseling_db False) ''D1'')) = Some BANK_SELECTED"
  "\<not> donor_first_entry_from donor_initial_state (donor_history_of (counseling_db False) ''D1'')"
  "map bank_state (banks verified_bank_db) = [BANK_VERIFIED]"
  by (code_simp, code_simp, code_simp, code_simp, code_simp)

lemma verified_bank_history:
  "map bh_to_state (bank_state_history verified_bank_db) = [BANK_VERIFICATION_PENDING]"
  by code_simp

theorem history_chain_counterexample:
  "map (\<lambda>h. (bh_from_state h, bh_to_state h)) (bank_history_of (counseling_db False) ''B1'')
     = [(Some BANK_ACCOUNT_CREATED, BANK_VERIFICATION_PENDING),
        (Some BANK_VERIFIED, BANK_SUBSCRIPTION_PENDING),
        (Some BANK_SUBSCRIPTION_PENDING, BANK_SUBSCRIBED_ONBOARDED),
        (Some BANK_SUBSCRIBED_ONBOARDED, BANK_OPERATIONAL)]
   \<and> \<not> bank_entries_linked (bank_history_of (counseling_db False) ''B1'')
   \<and> map bank_state (banks verified_bank_db) = [BANK_VERIFIED]
   \<and> map bh_to_state (bank_state_history verified_bank_db) = [BANK_VERIFICATION_PENDING]
   \<and> dh_from_state (hd (donor_history_of (counseling_db False) ''D1'')) = Some BANK_SELECTED
   \<and> \<not> donor_first_entry_from donor_initial_state
          (donor_history_of (counseling_db False) ''D1'')"
  using broken_bank_chain verified_bank_history by simp

text \<open>
  C4 (as amended). In every database reached through the API from the empty one, the
  committed states of every donor (read from its history) start at \<^verbatim>\<open>BANK_SELECTED\<close>
  and follow the donor graph one edge at a time up to the donor's current state, with
  no state twice: no skips, no regressions, no repeats. A bank persists under every
  further sequence of requests and its state never moves backwards along the bank
  chain; the admin subscription update, however, moves a bank from \<^verbatim>\<open>VERIFIED\<close>
  straight to \<^verbatim>\<open>SUBSCRIBED_ONBOARDED\<close>.
\<close>

theorem states_only_move_forward:
  "(\<forall>d \<in> set (donors (run (empty_db af) ops)).
      follows_donor_edges BANK_SELECTED
        (map dh_to_state (donor_history_of (run (empty_db af) ops) (donor_id d)))
      \<and> distinct (map dh_to_state (donor_history_of (run (empty_db af) ops) (donor_id d)))
      \<and> donor_state d
          = last (BANK_SELECTED
                  # map dh_to_state (donor_history_of (run (empty_db af) ops) (donor_id d))))
   \<and> (\<forall>b \<in> set (banks (run (empty_db af) ops)).
        \<exists>b' \<in> set (banks (run (run (empty_db af) ops) more_ops)).
          bank_id b' = bank_id b \<and> bank_rank (bank_state b) \<le> bank_rank (bank_state b'))"
proof -
  let ?db = "run (empty_db af) ops"
  have "follows_donor_edges BANK_SELECTED (map dh_to_state (donor_history_of ?db (donor_id d)))
        \<and> distinct (map dh_to_state (donor_history_of ?db (donor_id d)))
        \<and> donor_state d = last (BANK_SELECTED # map dh_to_state (donor_history_of ?db (donor_id d)))"
    if "d \<in> set (donors ?db)" for d
  proof -
    have "donor_chain BANK_SELECTED (donor_history_of ?db (donor_id d)) (donor_state d)"
      using donor_inv_reachable [of af ops] that by (simp add: donor_inv_def)
    then show ?thesis
      using donor_chain_shape follows_donor_edges_increasing by blast
  qed
  moreover have "distinct (map bank_id (banks ?db))"
    using bank_distinct_run [of "empty_db af" ops] by (simp add: empty_db_def)
  ultimately show ?thesis using bank_forward_run by blast
qed

theorem states_only_move_forward_witness:
  "follows_donor_edges BANK_SELECTED [LEAD_CREATED, ACCOUNT_CREATED, COUNSELING_REQUESTED]
   \<and> map dh_to_state (donor_history_of (counseling_db False) ''D1'')
       = [LEAD_CREATED, ACCOUNT_CREATED, COUNSELING_REQUESTED]
   \<and> example_donor COUNSELING_REQUESTED \<in> set (donors (counseling_db False))
   \<and> example_bank ''B1'' \<in> set (banks (counseling_db False))
   \<and> (\<exists>b' \<in> set (banks (run (counseling_db False) sign_ops)).
         bank_id b' = ''B1'' \<and> bank_rank BANK_OPERATIONAL \<le> bank_rank (bank_state b'))"
proof -
  note t = states_only_move_forward [of False counseling_ops sign_ops]
  from t [THEN conjunct1, THEN bspec, OF counseling_members(1)]
  have "follows_donor_edges BANK_SELECTED [LEAD_CREATED, ACCOUNT_CREATED, COUNSELING_REQUESTED]"
    using counseling_members(3) by (simp add: counseling_db_def example_donor_def)
  moreover from t [THEN conjunct2, THEN bspec, OF counseling_members(2)]
  have "\<exists>b' \<in> set (banks (run (counseling_db False) sign_ops)).
          bank_id b' = ''B1'' \<and> bank_rank BANK_OPERATIONAL \<le> bank_rank (bank_state b')"
    by (simp add: counseling_db_def example_bank_def)
  ultimately show ?thesis
    using counseling_members by (simp add: counseling_db_def)
qed

lemma admin_subscription_skip:
  "map bank_state
     (banks (apply_request verified_bank_db
               (AdminUpdateBankSubscription ''super_admin'' ''B1'' ''basic'' 2 3)))
     = [BANK_SUBSCRIBED_ONBOARDED]"
  "bank_state_history (apply_request verified_bank_db
               (AdminUpdateBankSubscription ''super_admin'' ''B1'' ''basic'' 2 3))
     = bank_state_history verified_bank_db"
  by (code_simp, code_simp)

theorem admin_subscription_skips_a_state_counterexample:
  "map bank_state (banks verified_bank_db) = [BANK_VERIFIED]
   \<and> map bank_state
       (banks (apply_request verified_bank_db
                 (AdminUpdateBankSubscription ''super_admin'' ''B1'' ''basic'' 2 3)))
       = [BANK_SUBSCRIBED_ONBOARDED]
   \<and> \<not> can_transition_bank_state BANK_VERIFIED BANK_SUBSCRIBED_ONBOARDED
   \<and> get_or_empty BANK_STATE_TRANSITIONS BANK_VERIFIED = [BANK_SUBSCRIPTION_PENDING]"
  using broken_bank_chain(5) admin_subscription_skip(1)
  by (simp add: can_transition_bank_rank get_or_empty_def BANK_STATE_TRANSITIONS_def)

end
